theory Spec2Isabelle
  imports Main "HOL-Library.Sublist" "HOL-Library.Multiset"
begin

section \<open>XZCrawler: strings and characters\<close>

text \<open>
  JavaScript strings are sequences of UTF-16 code units. A string is modelled as the list of
  its code units, each an integer from 0 to 65535, so that characters outside ASCII (the
  zero-width space U+200B, full-width brackets) are ordinary elements.
\<close>

type_synonym codeunit = int

type_synonym jsstring = "codeunit list"

abbreviation LF :: codeunit where "LF \<equiv> 10"
abbreviation SP :: codeunit where "SP \<equiv> 32"
abbreviation BT :: codeunit where "BT \<equiv> 96"

section \<open>Inline code fencing (\<open>convertDomNodeToMarkdown\<close>, case \<open>ne-code\<close>)\<close>

text \<open>\<open>raw.replace(/\n+/g, ' ')\<close>: every maximal run of line feeds becomes one space.\<close>

function replaceNewlineRuns :: "jsstring \<Rightarrow> jsstring" where
  "replaceNewlineRuns [] = []"
| "replaceNewlineRuns (c # cs) =
     (if c = LF then SP # replaceNewlineRuns (dropWhile (\<lambda>x. x = LF) cs)
      else c # replaceNewlineRuns cs)"
  by pat_completeness auto
termination
  by (relation "measure length") (auto simp: le_imp_less_Suc length_dropWhile_le)

text \<open>\<open>raw.match(/`+/g)\<close>: the maximal runs of backticks, left to right.\<close>

function backtickRuns :: "jsstring \<Rightarrow> jsstring list" where
  "backtickRuns [] = []"
| "backtickRuns (c # cs) =
     (if c = BT then (c # takeWhile (\<lambda>x. x = BT) cs) # backtickRuns (dropWhile (\<lambda>x. x = BT) cs)
      else backtickRuns cs)"
  by pat_completeness auto
termination
  by (relation "measure length") (auto simp: le_imp_less_Suc length_dropWhile_le)

text \<open>
  \<open>fenceLen\<close> is 1 when there is no run, and \<open>Math.max(...runs.map(s => s.length)) + 1\<close>
  otherwise.
\<close>

definition fenceLen :: "jsstring \<Rightarrow> nat" where
  "fenceLen raw =
     (let runs = backtickRuns raw
      in if runs \<noteq> [] then Max (set (map length runs)) + 1 else 1)"

definition needsPadding :: "jsstring \<Rightarrow> bool" where
  "needsPadding raw \<longleftrightarrow>
     prefix [BT] raw \<or> suffix [BT] raw \<or> prefix [SP] raw \<or> suffix [SP] raw"

definition inlineCode :: "jsstring \<Rightarrow> jsstring" where
  "inlineCode textContent =
     (let raw = replaceNewlineRuns textContent;
          fence = replicate (fenceLen raw) BT
      in if needsPadding raw then fence @ [SP] @ raw @ [SP] @ fence
         else fence @ raw @ fence)"


section \<open>Crawl orchestrator: data model\<close>

text \<open>ASCII literals of the source, as code units.\<close>

definition ascii :: "string \<Rightarrow> jsstring" where
  "ascii s = map of_char s"

text \<open>
  \<open>\s\<close> of a JavaScript regular expression, which is also what \<open>String.prototype.trim\<close>
  removes: white space and line terminators.
\<close>

definition isJsSpace :: "codeunit \<Rightarrow> bool" where
  "isJsSpace c \<longleftrightarrow>
     c \<in> {9, 10, 11, 12, 13, 32, 160, 5760, 8192, 8193, 8194, 8195, 8196, 8197, 8198, 8199,
          8200, 8201, 8202, 8232, 8233, 8239, 8287, 12288, 65279}"

definition trim :: "jsstring \<Rightarrow> jsstring" where
  "trim s = rev (dropWhile isJsSpace (rev (dropWhile isJsSpace s)))"

text \<open>
  A \<open>Date\<close> object holds a time value in milliseconds, or \<open>NaN\<close> when the string given to
  \<open>new Date\<close> could not be parsed (an Invalid Date: the constructor does not throw). The
  relational operators compare time values, and every comparison with \<open>NaN\<close> is false.
\<close>

datatype jsdate = Valid int | Invalid

fun date_ge :: "jsdate \<Rightarrow> jsdate \<Rightarrow> bool" where
  "date_ge (Valid a) (Valid b) \<longleftrightarrow> a \<ge> b"
| "date_ge _ _ \<longleftrightarrow> False"

fun date_le :: "jsdate \<Rightarrow> jsdate \<Rightarrow> bool" where
  "date_le (Valid a) (Valid b) \<longleftrightarrow> a \<le> b"
| "date_le _ _ \<longleftrightarrow> False"

fun date_gt :: "jsdate \<Rightarrow> jsdate \<Rightarrow> bool" where
  "date_gt (Valid a) (Valid b) \<longleftrightarrow> a > b"
| "date_gt _ _ \<longleftrightarrow> False"

text \<open>A listing entry, as \<open>extractArticleInfo\<close> builds it; \<open>content\<close> is set after the fetch.\<close>

record article =
  title :: jsstring
  link :: jsstring
  publishTime :: jsstring
  category :: jsstring
  author :: jsstring
  extractedAt :: jsstring
  content :: "jsstring option"

text \<open>
  What the crawler takes from its host: \<open>new Date(string)\<close>, the SHA-1 digest in
  hexadecimal, the rendering of one article (\<open>generateSingleArticleMarkdown\<close>, which formats
  a date in the host's locale), and whether writing a file of a given name throws.
\<close>

record host =
  parseDate :: "jsstring \<Rightarrow> jsdate"
  sha1 :: "jsstring \<Rightarrow> jsstring"
  generateSingleArticleMarkdown :: "article \<Rightarrow> jsstring"
  writeThrows :: "jsstring \<Rightarrow> bool"

text \<open>The fields of the crawler that its constructor sets from the options.\<close>

record config =
  startDate :: "jsdate option"
  endDate :: "jsdate option"
  targetDate :: "jsdate option"
  fetchFullContent :: bool
  maxPages :: nat
  concurrency :: nat

text \<open>
  \<open>options.startDate ? new Date(options.startDate) : null\<close>, and likewise for the other
  dates: an absent or empty option gives \<open>null\<close>; \<open>targetDate\<close> falls back to \<open>startDate\<close>.
\<close>

definition optDate :: "host \<Rightarrow> jsstring option \<Rightarrow> jsdate option" where
  "optDate h opt =
     (case opt of None \<Rightarrow> None | Some s \<Rightarrow> if s = [] then None else Some (parseDate h s))"

definition constructor ::
  "host \<Rightarrow> jsstring option \<Rightarrow> jsstring option \<Rightarrow> jsstring option
     \<Rightarrow> bool \<Rightarrow> nat \<Rightarrow> nat \<Rightarrow> config" where
  "constructor h optStart optEnd optTarget full pages conc =
     \<lparr> startDate = optDate h optStart,
       endDate = optDate h optEnd,
       targetDate = (case optDate h optTarget of
                       Some d \<Rightarrow> Some d
                     | None \<Rightarrow> optDate h optStart),
       fetchFullContent = full,
       maxPages = (if pages = 0 then 1 else pages),
       concurrency = (if conc > 0 then conc else 3) \<rparr>"

section \<open>Window filter (\<open>scrapeArticles\<close>, the \<open>filter\<close> callback)\<close>

definition keepArticle :: "host \<Rightarrow> config \<Rightarrow> article \<Rightarrow> bool" where
  "keepArticle h cfg a =
     (if publishTime a = [] then False
      else
        let articleDate = parseDate h (publishTime a);
            include0 = True;
            include1 = (case startDate cfg of
                          Some s \<Rightarrow> include0 \<and> date_ge articleDate s
                        | None \<Rightarrow> include0);
            include2 = (case endDate cfg of
                          Some e \<Rightarrow> include1 \<and> date_le articleDate e
                        | None \<Rightarrow> include1)
        in if startDate cfg = None \<and> endDate cfg = None \<and> targetDate cfg \<noteq> None
           then include2 \<and> date_gt articleDate (the (targetDate cfg))
           else include2)"

definition filteredArticles :: "host \<Rightarrow> config \<Rightarrow> article list \<Rightarrow> article list" where
  "filteredArticles h cfg articlesOnPage = filter (keepArticle h cfg) articlesOnPage"


section \<open>Identity key, file names and immediate persistence\<close>

text \<open>
  The deduplication key of \<open>scrapeArticles\<close>:
  \<open>(item.link && item.link.trim()) || `${(item.title || '').trim()}|${item.publishTime || ''}`\<close>.
\<close>

definition identityKey :: "article \<Rightarrow> jsstring" where
  "identityKey item =
     (if link item \<noteq> [] \<and> trim (link item) \<noteq> [] then trim (link item)
      else trim (title item) @ [124] @ publishTime item)"

text \<open>The four regular-expression replacements of \<open>generateFileName\<close>, in order.\<close>

definition removeUnsafe :: "jsstring \<Rightarrow> jsstring" where
  "removeUnsafe s = filter (\<lambda>c. c \<notin> {60, 62, 58, 34, 47, 92, 124, 63, 42}) s"

definition foldBrackets :: "jsstring \<Rightarrow> jsstring" where
  "foldBrackets s =
     map (\<lambda>c. if isJsSpace c \<or> c \<in> {40, 41, 65288, 65289, 91, 93, 12304, 12305} then 95 else c) s"

function collapseUnderscores :: "jsstring \<Rightarrow> jsstring" where
  "collapseUnderscores [] = []"
| "collapseUnderscores (c # cs) =
     (if c = 95 then 95 # collapseUnderscores (dropWhile (\<lambda>x. x = 95) cs)
      else c # collapseUnderscores cs)"
  by pat_completeness auto
termination
  by (relation "measure length") (auto simp: le_imp_less_Suc length_dropWhile_le)

definition stripEdgeUnderscores :: "jsstring \<Rightarrow> jsstring" where
  "stripEdgeUnderscores s =
     (let s1 = (if s \<noteq> [] \<and> hd s = 95 then tl s else s)
      in if s1 \<noteq> [] \<and> last s1 = 95 then butlast s1 else s1)"

definition generateFileName :: "host \<Rightarrow> article \<Rightarrow> nat \<Rightarrow> jsstring" where
  "generateFileName h a index =
     (let safeTitle = trim (title a);
          fileName = take 80 (stripEdgeUnderscores (collapseUnderscores
                       (foldBrackets (removeUnsafe safeTitle))))
      in (if fileName = []
          then ascii ''article_''
                 @ take 12 (sha1 h (if link a \<noteq> [] then link a else ascii ''unknown''))
          else fileName) @ ascii ''.md'')"

text \<open>The \<open>papers\<close> directory: whether it exists, and the content of each file by name.\<close>

record papers =
  papersDirExists :: bool
  files :: "jsstring \<rightharpoonup> jsstring"

text \<open>
  \<open>saveArticleImmediately\<close> returns the file name, or \<open>null\<close> (here \<open>None\<close>) when something
  threw. An existing file is not written again.
\<close>

definition saveArticleImmediately ::
  "host \<Rightarrow> papers \<Rightarrow> article \<Rightarrow> nat \<Rightarrow> papers \<times> jsstring option" where
  "saveArticleImmediately h fs a index =
     (let fs1 = (if \<not> papersDirExists fs then fs\<lparr>papersDirExists := True\<rparr> else fs);
          fileName = generateFileName h a index;
          articleMarkdown = generateSingleArticleMarkdown h a
      in if files fs1 fileName \<noteq> None then (fs1, Some fileName)
         else if writeThrows h fileName then (fs1, None)
         else (fs1\<lparr>files := (files fs1)(fileName \<mapsto> articleMarkdown)\<rparr>, Some fileName))"

section \<open>Fetching one article with retries\<close>

text \<open>What \<open>fetchArticleContent\<close> returns; it catches every error itself.\<close>

record fetched =
  fetchedTitle :: jsstring
  fetchedContent :: jsstring

definition accessFailed :: jsstring where
  "accessFailed = [35775, 38382, 22833, 36133]"

definition unknownTitle :: jsstring where
  "unknownTitle = [26410, 30693, 26631, 39064]"

definition cannotGetContent :: jsstring where
  "cannotGetContent = [26080, 27861, 33719, 21462, 25991, 31456, 20869, 23481]"

definition extractContentFailed :: jsstring where
  "extractContentFailed = [25552, 21462, 25991, 31456, 20869, 23481, 22833, 36133]"

definition fetchFailed :: jsstring where
  "fetchFailed = [25235, 21462, 22833, 36133]"

text \<open>
  The test of \<open>fetchArticleContentWithRetry\<close> for a result that counts as a failure, and
  the message of the error it then throws.
\<close>

definition looksFailed :: "fetched \<Rightarrow> bool" where
  "looksFailed res \<longleftrightarrow>
     fetchedTitle res = accessFailed \<or> fetchedContent res = []
     \<or> sublist cannotGetContent (fetchedContent res)
     \<or> sublist extractContentFailed (fetchedContent res)"

definition failureMessage :: "fetched \<Rightarrow> jsstring" where
  "failureMessage res = (if fetchedTitle res \<noteq> [] then fetchedTitle res else fetchFailed)"

text \<open>
  The loop of \<open>fetchArticleContentWithRetry\<close>. \<open>fetch k\<close> is what the \<open>k\<close>-th call of
  \<open>fetchArticleContent\<close> returns and \<open>abortedAt k\<close> the value of \<open>this.aborted\<close> when the loop
  condition is evaluated for attempt \<open>k\<close>. The result is the thrown message or the returned
  record, together with the delays slept, in order.
\<close>

function retryLoop ::
  "(nat \<Rightarrow> fetched) \<Rightarrow> (nat \<Rightarrow> bool) \<Rightarrow> nat \<Rightarrow> nat \<Rightarrow> nat \<Rightarrow> jsstring option \<Rightarrow> nat list
     \<Rightarrow> (jsstring + fetched) \<times> nat list" where
  "retryLoop fetch abortedAt retries baseDelay attempt lastErr delays =
     (if attempt \<le> retries \<and> \<not> abortedAt attempt then
        let res = fetch attempt in
        if looksFailed res then
          if attempt = retries then (Inl (failureMessage res), delays)
          else retryLoop fetch abortedAt retries baseDelay (attempt + 1)
                 (Some (failureMessage res)) (delays @ [baseDelay * 2 ^ attempt])
        else (Inr res, delays)
      else (Inl (case lastErr of Some e \<Rightarrow> e | None \<Rightarrow> fetchFailed), delays))"
  by pat_completeness auto
termination
  by (relation "measure (\<lambda>(fetch, abortedAt, retries, baseDelay, attempt, lastErr, delays).
        Suc retries - attempt)") auto

definition fetchArticleContentWithRetry ::
  "(nat \<Rightarrow> fetched) \<Rightarrow> (nat \<Rightarrow> bool) \<Rightarrow> nat \<Rightarrow> nat \<Rightarrow> (jsstring + fetched) \<times> nat list" where
  "fetchArticleContentWithRetry fetch abortedAt retries baseDelay =
     retryLoop fetch abortedAt retries baseDelay 0 None []"


section \<open>Crawler state and the running summary\<close>

record failure =
  failedLink :: jsstring
  failedTitle :: jsstring
  failedError :: jsstring

text \<open>
  The mutable fields of the crawler, the \<open>papers\<close> directory, and the rows last written to
  \<open>SUMMARY-REALTIME.md\<close>. \<open>seenKeys\<close> is the \<open>Set\<close> of keys in insertion order.
\<close>

record crawler =
  articles :: "article list"
  failures :: "failure list"
  seenKeys :: "jsstring list"
  summaryUpdateCounter :: nat
  aborted :: bool
  disk :: papers
  realtimeSummary :: "article list option"

text \<open>
  \<open>this.articles.sort((a, b) => new Date(b.publishTime) - new Date(a.publishTime))\<close> of
  \<open>generateIndexMarkdown\<close> sorts the list in place. The comparator is \<open>NaN\<close> (which counts as
  0) when a date is invalid. The sort is modelled as a stable insertion sort.
\<close>

definition comparePublishTime :: "host \<Rightarrow> article \<Rightarrow> article \<Rightarrow> int" where
  "comparePublishTime h a b =
     (case (parseDate h (publishTime b), parseDate h (publishTime a)) of
        (Valid tb, Valid ta) \<Rightarrow> tb - ta
      | _ \<Rightarrow> 0)"

fun insertSorted :: "host \<Rightarrow> article \<Rightarrow> article list \<Rightarrow> article list" where
  "insertSorted h x [] = [x]"
| "insertSorted h x (y # ys) =
     (if comparePublishTime h x y < 0 then x # y # ys else y # insertSorted h x ys)"

definition sortByPublishTime :: "host \<Rightarrow> article list \<Rightarrow> article list" where
  "sortByPublishTime h xs = foldl (\<lambda>acc x. insertSorted h x acc) [] xs"

definition updateSummaryFile :: "host \<Rightarrow> 'a crawler_scheme \<Rightarrow> 'a crawler_scheme" where
  "updateSummaryFile h st =
     (let sortedArticles = sortByPublishTime h (articles st)
      in st\<lparr>articles := sortedArticles, realtimeSummary := Some sortedArticles\<rparr>)"

definition maybeUpdateSummaryFile :: "host \<Rightarrow> 'a crawler_scheme \<Rightarrow> 'a crawler_scheme" where
  "maybeUpdateSummaryFile h st =
     (let st1 = st\<lparr>summaryUpdateCounter := summaryUpdateCounter st + 1\<rparr>
      in if summaryUpdateCounter st1 mod 3 = 0 then updateSummaryFile h st1 else st1)"

section \<open>The worker pool of one page\<close>

text \<open>
  JavaScript runs one continuation at a time; a worker gives way to the others only at an
  \<open>await\<close>. A worker of \<open>runOne\<close> is therefore in one of these phases: at the head of its
  loop; awaiting \<open>fetchArticleContentWithRetry\<close> for an item with its key; awaiting the
  promise of \<open>saveArticleImmediately\<close>, whose body has already run and produced a file name
  or \<open>null\<close>; or out of its loop.
\<close>

datatype phase =
  Idle
| Fetching article jsstring
| Saved article jsstring "jsstring option"
| Finished

record pool = crawler +
  idx :: nat
  workers :: "phase list"
  items :: "article list"

text \<open>
  A schedule is a list of events: a worker resumes at the head of its loop, the fetch a
  worker awaits settles (the event carries what each call of \<open>fetchArticleContent\<close>
  returns), a worker resumes after the save, or the process receives SIGINT or SIGTERM.
\<close>

datatype event =
  Pick nat
| FetchDone nat "nat \<Rightarrow> fetched"
| Resume nat
| Abort

definition refineTitle :: "article \<Rightarrow> fetched \<Rightarrow> article" where
  "refineTitle item articleData =
     (let item1 = item\<lparr>content := Some (fetchedContent articleData)\<rparr>
      in if fetchedTitle articleData \<noteq> [] \<and> fetchedTitle articleData \<noteq> unknownTitle
            \<and> fetchedTitle articleData \<noteq> accessFailed
         then item1\<lparr>title := fetchedTitle articleData\<rparr> else item1)"

definition failureRecord :: "article \<Rightarrow> jsstring \<Rightarrow> failure" where
  "failureRecord item message =
     \<lparr> failedLink = link item,
       failedTitle = (if trim (title item) \<noteq> [] then trim (title item) else unknownTitle),
       failedError = message \<rparr>"

definition pick :: "host \<Rightarrow> config \<Rightarrow> nat \<Rightarrow> pool \<Rightarrow> pool" where
  "pick h cfg w p =
     (if idx p < length (items p) \<and> \<not> aborted p then
        let item = items p ! idx p;
            key = identityKey item;
            p1 = p\<lparr>idx := idx p + 1\<rparr>
        in if key \<in> set (seenKeys p1) then p1
           else if fetchFullContent cfg then p1\<lparr>workers := (workers p1)[w := Fetching item key]\<rparr>
           else
             let (fs, savedFileName) =
                   saveArticleImmediately h (disk p1) item (length (articles p1) + 1)
             in p1\<lparr>disk := fs, workers := (workers p1)[w := Saved item key savedFileName]\<rparr>
      else p\<lparr>workers := (workers p)[w := Finished]\<rparr>)"

definition fetchDone ::
  "host \<Rightarrow> nat \<Rightarrow> article \<Rightarrow> jsstring \<Rightarrow> (nat \<Rightarrow> fetched) \<Rightarrow> pool \<Rightarrow> pool" where
  "fetchDone h w item key fetch p =
     (case fst (fetchArticleContentWithRetry fetch (\<lambda>_. aborted p) 1 800) of
        Inr articleData \<Rightarrow>
          let item1 = refineTitle item articleData
          in if aborted p then p\<lparr>workers := (workers p)[w := Idle]\<rparr>
             else
               let (fs, savedFileName) =
                     saveArticleImmediately h (disk p) item1 (length (articles p) + 1)
               in p\<lparr>disk := fs, workers := (workers p)[w := Saved item1 key savedFileName]\<rparr>
      | Inl message \<Rightarrow>
          if aborted p then p\<lparr>workers := (workers p)[w := Finished]\<rparr>
          else p\<lparr>failures := failures p @ [failureRecord item message],
                 workers := (workers p)[w := Idle]\<rparr>)"

definition resume ::
  "host \<Rightarrow> config \<Rightarrow> nat \<Rightarrow> article \<Rightarrow> jsstring \<Rightarrow> jsstring option \<Rightarrow> pool \<Rightarrow> pool" where
  "resume h cfg w item key savedFileName p =
     (let p0 = p\<lparr>workers := (workers p)[w := Idle]\<rparr>
      in if savedFileName \<noteq> None \<and> \<not> aborted p0 then
           if fetchFullContent cfg then
             maybeUpdateSummaryFile h
               (if key \<notin> set (seenKeys p0)
                then p0\<lparr>seenKeys := seenKeys p0 @ [key], articles := articles p0 @ [item]\<rparr>
                else p0)
           else
             maybeUpdateSummaryFile h
               (p0\<lparr>seenKeys := (if key \<in> set (seenKeys p0) then seenKeys p0
                                  else seenKeys p0 @ [key]),
                    articles := articles p0 @ [item]\<rparr>)
         else p0)"

text \<open>One event; an event that names a worker which is not in the matching phase does nothing.\<close>

definition step :: "host \<Rightarrow> config \<Rightarrow> pool \<Rightarrow> event \<Rightarrow> pool" where
  "step h cfg p ev =
     (case ev of
        Abort \<Rightarrow> p\<lparr>aborted := True\<rparr>
      | Pick w \<Rightarrow>
          (if w < length (workers p) \<and> workers p ! w = Idle then pick h cfg w p else p)
      | FetchDone w fetch \<Rightarrow>
          (if w < length (workers p) then
             (case workers p ! w of
                Fetching item key \<Rightarrow> fetchDone h w item key fetch p
              | _ \<Rightarrow> p)
           else p)
      | Resume w \<Rightarrow>
          (if w < length (workers p) then
             (case workers p ! w of
                Saved item key savedFileName \<Rightarrow> resume h cfg w item key savedFileName p
              | _ \<Rightarrow> p)
           else p))"

text \<open>
  The pool of one page: \<open>Math.max(1, this.concurrency)\<close> workers over the filtered entries
  when full content is fetched, and the single sequential loop otherwise.
\<close>

definition startPool :: "config \<Rightarrow> article list \<Rightarrow> crawler \<Rightarrow> pool" where
  "startPool cfg filtered st =
     crawler.extend st
       \<lparr> idx = 0,
         workers = replicate (if fetchFullContent cfg then max 1 (concurrency cfg) else 1) Idle,
         items = filtered \<rparr>"

definition runPool :: "host \<Rightarrow> config \<Rightarrow> article list \<Rightarrow> event list \<Rightarrow> crawler \<Rightarrow> pool" where
  "runPool h cfg filtered schedule st = foldl (step h cfg) (startPool cfg filtered st) schedule"

text \<open>\<open>Promise.all(workers)\<close> settles when every worker has left its loop.\<close>

definition drained :: "pool \<Rightarrow> bool" where
  "drained p \<longleftrightarrow> list_all (\<lambda>ph. ph = Finished) (workers p)"


section \<open>The page loop of \<open>scrapeArticles\<close>\<close>

text \<open>
  \<open>thresholdDate = this.startDate || this.targetDate || null\<close> (a \<open>Date\<close> object is truthy
  even when invalid), and whether some entry of the page is at or before it.
\<close>

definition thresholdDate :: "config \<Rightarrow> jsdate option" where
  "thresholdDate cfg = (case startDate cfg of Some d \<Rightarrow> Some d | None \<Rightarrow> targetDate cfg)"

definition hasOlderArticles :: "host \<Rightarrow> config \<Rightarrow> article list \<Rightarrow> bool" where
  "hasOlderArticles h cfg articlesOnPage =
     (case thresholdDate cfg of
        None \<Rightarrow> False
      | Some t \<Rightarrow>
          list_ex (\<lambda>a. publishTime a \<noteq> [] \<and> date_le (parseDate h (publishTime a)) t)
            articlesOnPage)"

text \<open>
  What the loop asks of the listing: the entries of a page, and the next page. The listing is
  the list of its pages from the current one on, the first being the page the crawler is on;
  \<open>goToNextPage\<close> finds a next-page link exactly when a further page exists.
\<close>

datatype request = Extract nat | NextPage nat

text \<open>
  The loop \<open>while (hasMorePages && currentPage <= this.maxPages)\<close>. \<open>schedule n\<close> is the
  schedule of the pool of page \<open>n\<close>. The result is the crawler and the requests made.
\<close>

fun pageLoop ::
  "host \<Rightarrow> config \<Rightarrow> (nat \<Rightarrow> event list) \<Rightarrow> nat \<Rightarrow> article list list \<Rightarrow> crawler
     \<Rightarrow> crawler \<times> request list" where
  "pageLoop h cfg schedule currentPage [] st = (st, [])"
| "pageLoop h cfg schedule currentPage (articlesOnPage # rest) st =
     (if currentPage \<le> maxPages cfg then
        if aborted st then (st, [])
        else if articlesOnPage = [] then (st, [Extract currentPage])
        else
          let filtered = filteredArticles h cfg articlesOnPage;
              st1 = crawler.truncate (runPool h cfg filtered (schedule currentPage) st)
          in if hasOlderArticles h cfg articlesOnPage \<and> currentPage > 3
             then (st1, [Extract currentPage])
             else if aborted st1 then (st1, [Extract currentPage])
             else if rest = [] then (st1, [Extract currentPage, NextPage currentPage])
             else
               let (st2, requests) = pageLoop h cfg schedule (currentPage + 1) rest st1
               in (st2, Extract currentPage # NextPage currentPage # requests)
      else (st, []))"

definition newCrawler :: crawler where
  "newCrawler =
     \<lparr> articles = [], failures = [], seenKeys = [], summaryUpdateCounter = 0, aborted = False,
       disk = \<lparr> papersDirExists = False, files = Map.empty \<rparr>, realtimeSummary = None \<rparr>"

definition scrapeArticles ::
  "host \<Rightarrow> config \<Rightarrow> (nat \<Rightarrow> event list) \<Rightarrow> article list list \<Rightarrow> crawler
     \<Rightarrow> crawler \<times> request list" where
  "scrapeArticles h cfg schedule listing st = pageLoop h cfg schedule 1 listing st"

section \<open>Deduplication invariant\<close>

definition hasLink :: "article \<Rightarrow> bool" where
  "hasLink a \<longleftrightarrow> trim (link a) \<noteq> []"

text \<open>
  The invariant on the crawler: the keys seen are pairwise different, there are as many
  records as keys, the records that have a link were each appended under their trimmed
  link, and, when titles are never refined, the keys of the records are the keys seen.
\<close>

definition dedupOk :: "config \<Rightarrow> 'a crawler_scheme \<Rightarrow> bool" where
  "dedupOk cfg st \<longleftrightarrow>
     distinct (seenKeys st)
     \<and> length (articles st) = length (seenKeys st)
     \<and> mset (map identityKey (filter hasLink (articles st))) \<subseteq># mset (seenKeys st)
     \<and> (fetchFullContent cfg \<or> mset (map identityKey (articles st)) = mset (seenKeys st))"

text \<open>
  The invariant on the workers: a worker holds the key of the entry it took, as far as the
  link decides it; the sequential loop has one worker, which holds a key not yet seen.
\<close>

fun phaseOk :: "config \<Rightarrow> jsstring list \<Rightarrow> phase \<Rightarrow> bool" where
  "phaseOk cfg seen (Fetching item key) \<longleftrightarrow>
     fetchFullContent cfg \<and> (if hasLink item then key = identityKey item else True)"
| "phaseOk cfg seen (Saved item key savedFileName) \<longleftrightarrow>
     (if hasLink item then key = identityKey item else True)
     \<and> (fetchFullContent cfg \<or> (key = identityKey item \<and> key \<notin> set seen))"
| "phaseOk cfg seen _ \<longleftrightarrow> True"

definition poolOk :: "config \<Rightarrow> pool \<Rightarrow> bool" where
  "poolOk cfg p \<longleftrightarrow>
     dedupOk cfg p
     \<and> list_all (phaseOk cfg (seenKeys p)) (workers p)
     \<and> (fetchFullContent cfg \<or> length (workers p) \<le> 1)"

section \<open>The summary index\<close>


section \<open>Parsed markup\<close>

text \<open>
  The converters hand raw inner markup to the HTML parser and work on the tree it returns.
  A node is a text node, an element (lower-case tag name, attributes, children) or a
  comment; the input of a converter is the list of nodes the markup parses to.
\<close>

datatype node =
  TextNode jsstring
| Element jsstring "(jsstring \<times> jsstring) list" "node list"
| Comment jsstring

fun tagName :: "node \<Rightarrow> jsstring" where
  "tagName (Element tag attrs children) = tag"
| "tagName _ = []"

fun attributes :: "node \<Rightarrow> (jsstring \<times> jsstring) list" where
  "attributes (Element tag attrs children) = attrs"
| "attributes _ = []"

fun childNodes :: "node \<Rightarrow> node list" where
  "childNodes (Element tag attrs children) = children"
| "childNodes _ = []"

definition getAttribute :: "node \<Rightarrow> jsstring \<Rightarrow> jsstring option" where
  "getAttribute n name = map_of (attributes n) name"

text \<open>The elements of a subtree in document order, the root first; and of a list of nodes.\<close>

fun elementsOf :: "node \<Rightarrow> node list" where
  "elementsOf (Element tag attrs children) =
     Element tag attrs children # concat (map elementsOf children)"
| "elementsOf _ = []"

definition elementsIn :: "node list \<Rightarrow> node list" where
  "elementsIn nodes = concat (map elementsOf nodes)"

text \<open>\<open>textContent\<close>: the text of all text nodes below a node, in order.\<close>

fun textContent :: "node \<Rightarrow> jsstring" where
  "textContent (TextNode t) = t"
| "textContent (Element tag attrs children) = concat (map textContent children)"
| "textContent (Comment c) = []"

text \<open>The class list of an element: its \<open>class\<close> attribute split at ASCII white space.\<close>

definition isAsciiSpace :: "codeunit \<Rightarrow> bool" where
  "isAsciiSpace c \<longleftrightarrow> c \<in> {9, 10, 12, 13, 32}"

fun splitTokens :: "jsstring \<Rightarrow> jsstring \<Rightarrow> jsstring list" where
  "splitTokens cur [] = (if cur = [] then [] else [cur])"
| "splitTokens cur (c # cs) =
     (if isAsciiSpace c then (if cur = [] then [] else [cur]) @ splitTokens [] cs
      else splitTokens (cur @ [c]) cs)"

definition classList :: "node \<Rightarrow> jsstring list" where
  "classList n = (case getAttribute n (ascii ''class'') of
                    None \<Rightarrow> [] | Some v \<Rightarrow> splitTokens [] v)"

definition hasClass :: "string \<Rightarrow> node \<Rightarrow> bool" where
  "hasClass c n \<longleftrightarrow> ascii c \<in> set (classList n)"

definition hasAttribute :: "string \<Rightarrow> node \<Rightarrow> bool" where
  "hasAttribute a n \<longleftrightarrow> getAttribute n (ascii a) \<noteq> None"

definition hasTag :: "string \<Rightarrow> node \<Rightarrow> bool" where
  "hasTag t n \<longleftrightarrow> tagName n = ascii t"

text \<open>\<open>querySelectorAll\<close> and \<open>querySelector\<close> for a selector given as a predicate.\<close>

definition querySelectorAll :: "(node \<Rightarrow> bool) \<Rightarrow> node list \<Rightarrow> node list" where
  "querySelectorAll sel nodes = filter sel (elementsIn nodes)"

definition querySelector :: "(node \<Rightarrow> bool) \<Rightarrow> node list \<Rightarrow> node option" where
  "querySelector sel nodes =
     (case querySelectorAll sel nodes of [] \<Rightarrow> None | n # _ \<Rightarrow> Some n)"

text \<open>The selector \<open>pre code\<close>: the \<open>code\<close> elements below a \<open>pre\<close> element.\<close>

definition preCode :: "node list \<Rightarrow> node list" where
  "preCode nodes =
     concat (map (\<lambda>p. querySelectorAll (hasTag ''code'') (childNodes p))
       (querySelectorAll (hasTag ''pre'') nodes))"

section \<open>Code extractor (\<open>extractCodeFromCard\<close>)\<close>

text \<open>\<open>walkNodes\<close>: the text below a node, without what is below a \<open>br\<close> element.\<close>

fun walkNodes :: "node \<Rightarrow> jsstring" where
  "walkNodes (TextNode t) = t"
| "walkNodes (Element tag attrs children) =
     (if tag = ascii ''br'' then [] else concat (map walkNodes children))"
| "walkNodes (Comment c) = []"

definition lineText :: "node \<Rightarrow> jsstring" where
  "lineText line = concat (map walkNodes (childNodes line))"

text \<open>\<open>lines.join('\n')\<close>.\<close>

fun joinLines :: "jsstring list \<Rightarrow> jsstring" where
  "joinLines [] = []"
| "joinLines [l] = l"
| "joinLines (l # ls) = l @ [LF] @ joinLines ls"

definition detectLanguage :: "node list \<Rightarrow> jsstring" where
  "detectLanguage nodes =
     (let language =
            (case querySelector (hasAttribute ''data-codeblock-mode'') nodes of
               Some codeblockElement \<Rightarrow>
                 (case getAttribute codeblockElement (ascii ''data-codeblock-mode'') of
                    Some v \<Rightarrow> v | None \<Rightarrow> [])
             | None \<Rightarrow> [])
      in if language = [] then
           (case querySelector (hasAttribute ''data-language'') nodes of
              Some contentElement \<Rightarrow>
                (let language1 = (case getAttribute contentElement (ascii ''data-language'') of
                                    Some v \<Rightarrow> v | None \<Rightarrow> [])
                 in if language1 = ascii ''shell'' then ascii ''bash'' else language1)
            | None \<Rightarrow> language)
         else language)"

definition fallbackElement :: "node list \<Rightarrow> node option" where
  "fallbackElement nodes =
     (case querySelector (hasClass ''cm-content'') nodes of
        Some n \<Rightarrow> Some n
      | None \<Rightarrow>
     (case querySelector (hasClass ''ne-codeblock-inner'') nodes of
        Some n \<Rightarrow> Some n
      | None \<Rightarrow>
     (case preCode nodes of
        n # _ \<Rightarrow> Some n
      | [] \<Rightarrow>
     (case querySelector (hasTag ''pre'') nodes of
        Some n \<Rightarrow> Some n
      | None \<Rightarrow> querySelector (hasTag ''code'') nodes))))"

definition codeContentOf :: "node list \<Rightarrow> jsstring" where
  "codeContentOf nodes =
     (let codeLines = querySelectorAll (hasClass ''cm-line'') nodes
      in if codeLines \<noteq> [] then joinLines (map lineText codeLines)
         else (case fallbackElement nodes of
                 Some fallback \<Rightarrow> textContent fallback
               | None \<Rightarrow> []))"

text \<open>
  \<open>extractCodeFromCard\<close> on the nodes its markup parses to. Empty markup has no nodes and
  gives the empty string.
\<close>

definition extractCodeFromCard :: "node list \<Rightarrow> jsstring" where
  "extractCodeFromCard nodes =
     (if nodes = [] then []
      else
        let language = detectLanguage nodes;
            codeContent = filter (\<lambda>c. c \<noteq> 8203) (codeContentOf nodes)
        in if length codeContent > 0
           then [LF] @ replicate 3 BT @ language @ [LF] @ codeContent @ [LF]
                  @ replicate 3 BT @ [LF, LF]
           else [])"

section \<open>Plain-text cleaner (\<open>cleanHtmlTags\<close>)\<close>

definition toLowerAscii :: "codeunit \<Rightarrow> codeunit" where
  "toLowerAscii c = (if 65 \<le> c \<and> c \<le> 90 then c + 32 else c)"

text \<open>Whether a string starts with a lower-case ASCII pattern, case ignored.\<close>

definition startsWithCI :: "jsstring \<Rightarrow> jsstring \<Rightarrow> bool" where
  "startsWithCI pat s \<longleftrightarrow>
     length pat \<le> length s \<and> map toLowerAscii (take (length pat) s) = pat"

text \<open>What follows the first occurrence of a closing tag, if there is one.\<close>

fun afterClose :: "jsstring \<Rightarrow> jsstring \<Rightarrow> jsstring option" where
  "afterClose close [] = None"
| "afterClose close (c # cs) =
     (if startsWithCI close (c # cs) then Some (drop (length close) (c # cs))
      else afterClose close cs)"

lemma afterClose_length: "afterClose close s = Some rest \<Longrightarrow> length rest \<le> length s"
  by (induction s) (auto split: if_splits)

lemma afterClose_shorter:
  assumes "dropWhile P (drop n (c # cs)) = gt # body" "afterClose close body = Some rest"
  shows "length rest < Suc (length cs)"
proof -
  have "length rest \<le> length body" using assms(2) by (rule afterClose_length)
  moreover have "length (gt # body) \<le> length (drop n (c # cs))"
    using assms(1) length_dropWhile_le [of P "drop n (c # cs)"] by simp
  ultimately show ?thesis by simp
qed

text \<open>
  \<open>/<script[^>]*>.*?<\/script>/gis\<close> and the same for \<open>style\<close>, replaced by nothing: an
  opening tag, up to the first closing tag after it.
\<close>

function removeBlocks :: "jsstring \<Rightarrow> jsstring \<Rightarrow> jsstring \<Rightarrow> jsstring" where
  "removeBlocks opening close [] = []"
| "removeBlocks opening close (c # cs) =
     (if startsWithCI opening (c # cs) then
        (case dropWhile (\<lambda>x. x \<noteq> 62) (drop (length opening) (c # cs)) of
           [] \<Rightarrow> c # removeBlocks opening close cs
         | gt # body \<Rightarrow>
             (case afterClose close body of
                None \<Rightarrow> c # removeBlocks opening close cs
              | Some rest \<Rightarrow> removeBlocks opening close rest))
      else c # removeBlocks opening close cs)"
  by pat_completeness auto
termination
  by (relation "measure (\<lambda>(opening, close, s). length s)")
    (auto simp: afterClose_shorter)

text \<open>\<open>/<[^>]+>/g\<close> replaced by nothing.\<close>

function stripTags :: "jsstring \<Rightarrow> jsstring" where
  "stripTags [] = []"
| "stripTags (c # cs) =
     (if c = 60 \<and> takeWhile (\<lambda>x. x \<noteq> 62) cs \<noteq> [] \<and> dropWhile (\<lambda>x. x \<noteq> 62) cs \<noteq> []
      then stripTags (tl (dropWhile (\<lambda>x. x \<noteq> 62) cs))
      else c # stripTags cs)"
  by pat_completeness auto
termination
proof (relation "measure length", goal_cases)
  case (2 c cs)
  have "length (tl (dropWhile (\<lambda>x. x \<noteq> 62) cs)) \<le> length cs"
    using length_dropWhile_le [of "\<lambda>x. x \<noteq> 62" cs] by simp
  then show ?case by simp
qed auto

text \<open>Replacement of every occurrence of a literal pattern, left to right.\<close>

function replaceAll :: "jsstring \<Rightarrow> jsstring \<Rightarrow> jsstring \<Rightarrow> jsstring" where
  "replaceAll pat rep [] = []"
| "replaceAll pat rep (c # cs) =
     (if pat \<noteq> [] \<and> prefix pat (c # cs)
      then rep @ replaceAll pat rep (drop (length pat) (c # cs))
      else c # replaceAll pat rep cs)"
  by pat_completeness auto
termination
  by (relation "measure (\<lambda>(pat, rep, s). length s)") (auto simp: Suc_le_eq)

text \<open>\<open>/\s+/g\<close> replaced by one space.\<close>

function collapseWhitespace :: "jsstring \<Rightarrow> jsstring" where
  "collapseWhitespace [] = []"
| "collapseWhitespace (c # cs) =
     (if isJsSpace c then SP # collapseWhitespace (dropWhile isJsSpace cs)
      else c # collapseWhitespace cs)"
  by pat_completeness auto
termination
  by (relation "measure length") (auto simp: le_imp_less_Suc length_dropWhile_le)

definition decodeEntities :: "jsstring \<Rightarrow> jsstring" where
  "decodeEntities s =
     replaceAll (ascii ''&#39;'') [39]
       (replaceAll (ascii ''&quot;'') [34]
         (replaceAll (ascii ''&amp;'') (ascii ''&'')
           (replaceAll (ascii ''&gt;'') (ascii ''>'')
             (replaceAll (ascii ''&lt;'') (ascii ''<'')
               (replaceAll (ascii ''&nbsp;'') [SP] s)))))"

definition cleanHtmlTags :: "jsstring \<Rightarrow> bool \<Rightarrow> jsstring" where
  "cleanHtmlTags html preserveWhitespace =
     (if html = [] then []
      else
        let cleaned = stripTags
              (removeBlocks (ascii ''<style'') (ascii ''</style>'')
                (removeBlocks (ascii ''<script'') (ascii ''</script>'') html))
        in if \<not> preserveWhitespace then collapseWhitespace (decodeEntities cleaned)
           else decodeEntities cleaned)"

section \<open>Table converter (\<open>convertTableToMarkdown\<close>)\<close>

text \<open>\<open>cellMd.replace(/\n{2,}/g, '\n')\<close>: a run of line feeds becomes one line feed.\<close>

function collapseBlankLines :: "jsstring \<Rightarrow> jsstring" where
  "collapseBlankLines [] = []"
| "collapseBlankLines (c # cs) =
     (if c = LF then LF # collapseBlankLines (dropWhile (\<lambda>x. x = LF) cs)
      else c # collapseBlankLines cs)"
  by pat_completeness auto
termination
  by (relation "measure length") (auto simp: le_imp_less_Suc length_dropWhile_le)

text \<open>The steps of \<open>escapeCell\<close>.\<close>

fun unifyNewlines :: "jsstring \<Rightarrow> jsstring" where
  "unifyNewlines [] = []"
| "unifyNewlines [c] = (if c = 13 then [LF] else [c])"
| "unifyNewlines (c # d # cs) =
     (if c = 13 then (if d = LF then LF # unifyNewlines cs else LF # unifyNewlines (d # cs))
      else c # unifyNewlines (d # cs))"

fun splitLines :: "jsstring \<Rightarrow> jsstring \<Rightarrow> jsstring list" where
  "splitLines cur [] = [cur]"
| "splitLines cur (c # cs) =
     (if c = LF then cur # splitLines [] cs else splitLines (cur @ [c]) cs)"

definition trimEnd :: "jsstring \<Rightarrow> jsstring" where
  "trimEnd s = rev (dropWhile isJsSpace (rev s))"

fun joinWith :: "jsstring \<Rightarrow> jsstring list \<Rightarrow> jsstring" where
  "joinWith sep [] = []"
| "joinWith sep [l] = l"
| "joinWith sep (l # ls) = l @ sep @ joinWith sep ls"

definition escapeCell :: "jsstring \<Rightarrow> jsstring" where
  "escapeCell s =
     joinWith (ascii ''<br>'')
       (map trimEnd
         (splitLines []
           (concat (map (\<lambda>c. if c = 124 then [92, 124] else [c])
             (unifyNewlines
               (map (\<lambda>c. if c = 160 then SP else c)
                 (filter (\<lambda>c. c \<noteq> 8203 \<and> c \<noteq> 65279) s)))))))"

text \<open>
  The Markdown of one cell. \<open>convertNode\<close> is \<open>convertDomNodeToMarkdown\<close>, the converter of
  the whole document, applied to a child of the cell or of its content container.
\<close>

definition cellMarkdown :: "(node \<Rightarrow> jsstring) \<Rightarrow> node \<Rightarrow> jsstring" where
  "cellMarkdown convertNode cell =
     (let source = (case querySelector (hasClass ''ne-td-content'') (childNodes cell) of
                      Some contentDiv \<Rightarrow> contentDiv
                    | None \<Rightarrow> cell);
          cellMd = collapseBlankLines (concat (map convertNode (childNodes source)));
          escaped = escapeCell cellMd
      in if escaped = [] then [SP] else escaped)"

definition rowsOf :: "node list \<Rightarrow> node list" where
  "rowsOf nodes = querySelectorAll (\<lambda>n. hasTag ''tr'' n \<or> hasClass ''ne-tr'' n) nodes"

definition cellsOf :: "node \<Rightarrow> node list" where
  "cellsOf row =
     querySelectorAll (\<lambda>n. hasTag ''th'' n \<or> hasTag ''td'' n \<or> hasClass ''ne-td'' n)
       (childNodes row)"

definition hasTh :: "node \<Rightarrow> bool" where
  "hasTh row \<longleftrightarrow> querySelectorAll (hasTag ''th'') (childNodes row) \<noteq> []"

text \<open>
  What the loop appends to \<open>markdown\<close>: the line of a row, with its cell contents, or the
  separator line, with one \<open>---\<close> per cell of the row before it.
\<close>

datatype tableLine = Row "jsstring list" | Separator nat

fun tableLoop :: "(node \<Rightarrow> jsstring) \<Rightarrow> nat \<Rightarrow> bool \<Rightarrow> node list \<Rightarrow> tableLine list" where
  "tableLoop convertNode i headerEmitted [] = []"
| "tableLoop convertNode i headerEmitted (row # rows) =
     (let cells = cellsOf row
      in if cells = [] then tableLoop convertNode (i + 1) headerEmitted rows
         else
           let isHeaderRow = hasTh row \<or> (\<not> headerEmitted \<and> i = 0);
               cellContents = map (cellMarkdown convertNode) cells
           in if \<not> headerEmitted \<and> isHeaderRow
              then Row cellContents # Separator (length cellContents)
                     # tableLoop convertNode (i + 1) True rows
              else Row cellContents # tableLoop convertNode (i + 1) headerEmitted rows)"

fun renderLine :: "tableLine \<Rightarrow> jsstring" where
  "renderLine (Row cellContents) =
     ascii ''| '' @ joinWith (ascii '' | '') cellContents @ ascii '' |'' @ [LF]"
| "renderLine (Separator n) =
     ascii ''| '' @ joinWith (ascii '' | '') (replicate n (ascii ''---'')) @ ascii '' |'' @ [LF]"

definition codeFence :: "jsstring \<Rightarrow> jsstring" where
  "codeFence s = [LF] @ replicate 3 BT @ [LF] @ s @ [LF] @ replicate 3 BT @ [LF]"

text \<open>
  \<open>convertTableToMarkdown\<close> on the raw markup \<open>content\<close> (here \<open>rawContent\<close>) and on \<open>nodes\<close>, the children the
  parser gives the root table the markup is wrapped in.
\<close>

definition convertTableToMarkdown ::
  "(node \<Rightarrow> jsstring) \<Rightarrow> jsstring \<Rightarrow> node list \<Rightarrow> jsstring" where
  "convertTableToMarkdown convertNode rawContent nodes =
     (if rawContent = [] then []
      else
        let rows = rowsOf nodes
        in if rows = [] then
             (let cleanContent = cleanHtmlTags rawContent False
              in if cleanContent \<noteq> [] then codeFence cleanContent else [])
           else
             let markdown = concat (map renderLine (tableLoop convertNode 0 False rows))
             in if markdown \<noteq> [] then markdown else codeFence (cleanHtmlTags rawContent False))"



section \<open>Download with referer (\<open>downloadWithReferer\<close>)\<close>

text \<open>
  The function registers callbacks and returns a promise; what happens next is decided by
  the events the HTTP client and the write stream deliver. The state is the number of
  redirects followed, where the transfer stands, the promise, and the destination file. A
  promise settles once: settling it again does nothing.
\<close>

datatype downloadError = TooManyRedirects | HttpStatus nat | StreamError | RequestError

datatype promise = Pending | Resolved | Rejected downloadError

datatype destFile = Absent | Partial | Complete

datatype stage = AwaitingResponse | Opening | Streaming | Closed

record download =
  redirectCount :: nat
  stage :: stage
  promise :: promise
  dest :: destFile

text \<open>
  The events: the response callback runs with a status and a \<open>Location\<close> header or none;
  the write stream has opened the file; a chunk was written; the stream emits \<open>finish\<close> or
  \<open>error\<close>; the request emits \<open>error\<close> (connection failure, or the 30 second timeout
  destroying the request).
\<close>

datatype netEvent =
  Response nat "jsstring option"
| Opened
| Chunk
| Finish
| WriteError
| RequestFailed

definition settle :: "promise \<Rightarrow> download \<Rightarrow> download" where
  "settle outcome d = (if promise d = Pending then d\<lparr>promise := outcome\<rparr> else d)"

definition maxRedirects :: nat where
  "maxRedirects = 5"

definition onResponse :: "nat \<Rightarrow> jsstring option \<Rightarrow> download \<Rightarrow> download" where
  "onResponse statusCode location d =
     (if statusCode \<ge> 300 \<and> statusCode < 400 \<and> location \<noteq> None \<and> location \<noteq> Some [] then
        if redirectCount d \<ge> maxRedirects
        then settle (Rejected TooManyRedirects) (d\<lparr>stage := Closed\<rparr>)
        else d\<lparr>redirectCount := redirectCount d + 1, stage := AwaitingResponse\<rparr>
      else if statusCode \<noteq> 200
        then settle (Rejected (HttpStatus statusCode)) (d\<lparr>stage := Closed\<rparr>)
      else d\<lparr>stage := Opening\<rparr>)"

fun deliver :: "download \<Rightarrow> netEvent \<Rightarrow> download" where
  "deliver d (Response statusCode location) =
     (if stage d = AwaitingResponse then onResponse statusCode location d else d)"
| "deliver d Opened =
     (if stage d = Opening then d\<lparr>stage := Streaming, dest := Partial\<rparr> else d)"
| "deliver d Chunk = d"
| "deliver d Finish =
     (if stage d = Streaming then settle Resolved (d\<lparr>stage := Closed, dest := Complete\<rparr>) else d)"
| "deliver d WriteError =
     (if stage d = Opening \<or> stage d = Streaming
      then settle (Rejected StreamError) (d\<lparr>stage := Closed, dest := Absent\<rparr>) else d)"
| "deliver d RequestFailed =
     (if stage d \<noteq> Closed then settle (Rejected RequestError) (d\<lparr>stage := Closed\<rparr>) else d)"

definition startDownload :: download where
  "startDownload = \<lparr> redirectCount = 0, stage = AwaitingResponse, promise = Pending, dest = Absent \<rparr>"

definition downloadWithReferer :: "netEvent list \<Rightarrow> download" where
  "downloadWithReferer events = foldl deliver startDownload events"

text \<open>
  The combinations of stage, promise and destination file that a sequence of events can
  reach.
\<close>

fun consistent :: "stage \<Rightarrow> promise \<Rightarrow> destFile \<Rightarrow> bool" where
  "consistent AwaitingResponse p f \<longleftrightarrow> p = Pending \<and> f = Absent"
| "consistent Opening p f \<longleftrightarrow> p = Pending \<and> f = Absent"
| "consistent Streaming p f \<longleftrightarrow> p = Pending \<and> f = Partial"
| "consistent Closed Resolved f \<longleftrightarrow> f = Complete"
| "consistent Closed (Rejected RequestError) f \<longleftrightarrow> f \<noteq> Complete"
| "consistent Closed (Rejected e) f \<longleftrightarrow> f = Absent"
| "consistent Closed Pending f \<longleftrightarrow> False"

definition downloadOk :: "download \<Rightarrow> bool" where
  "downloadOk d \<longleftrightarrow> consistent (stage d) (promise d) (dest d)"

section \<open>Image localizer (\<open>localizeImagesInPapers\<close>)\<close>

text \<open>
  A global regular expression is applied by trying a match at each position from the left
  and going on after the end of a match. A matcher gives what it captured and the length of
  the match.
\<close>

function scanAll :: "(jsstring \<Rightarrow> ('a \<times> nat) option) \<Rightarrow> jsstring \<Rightarrow> 'a list" where
  "scanAll matchAt [] = []"
| "scanAll matchAt (c # cs) =
     (case matchAt (c # cs) of
        Some (x, n) \<Rightarrow> x # scanAll matchAt (drop (max 1 n) (c # cs))
      | None \<Rightarrow> scanAll matchAt cs)"
  by pat_completeness auto
termination
  by (relation "measure (\<lambda>(matchAt, s). length s)") auto

text \<open>The same scan, keeping the text outside the matches: \<open>replace(regex, '')\<close>.\<close>

function removeMatches :: "(jsstring \<Rightarrow> ('a \<times> nat) option) \<Rightarrow> jsstring \<Rightarrow> jsstring" where
  "removeMatches matchAt [] = []"
| "removeMatches matchAt (c # cs) =
     (case matchAt (c # cs) of
        Some (x, n) \<Rightarrow>
          (if n = 0 then c # removeMatches matchAt cs
           else removeMatches matchAt (drop n (c # cs)))
      | None \<Rightarrow> c # removeMatches matchAt cs)"
  by pat_completeness auto
termination
  by (relation "measure (\<lambda>(matchAt, s). length s)") auto

text \<open>\<open>!\[[^\]]*\]\(\<close>: what follows the alternative text and the opening parenthesis.\<close>

definition afterAlt :: "jsstring \<Rightarrow> jsstring option" where
  "afterAlt s =
     (if prefix (ascii ''!['') s then
        let s2 = dropWhile (\<lambda>c. c \<noteq> 93) (drop 2 s)
        in if prefix (ascii '']('') s2 then Some (drop 2 s2) else None
      else None)"

text \<open>\<open>(?:\s+"[^"]*")?\)\<close>: an optional quoted title, then the closing parenthesis.\<close>

definition titleGroup :: "jsstring \<Rightarrow> jsstring option" where
  "titleGroup s =
     (let s1 = dropWhile isJsSpace s
      in if s \<noteq> [] \<and> isJsSpace (hd s) \<and> s1 \<noteq> [] \<and> hd s1 = 34 then
           let s2 = dropWhile (\<lambda>c. c \<noteq> 34) (tl s1)
           in if s2 \<noteq> [] then Some (tl s2) else None
         else None)"

definition closeParen :: "jsstring \<Rightarrow> jsstring option" where
  "closeParen s = (if s \<noteq> [] \<and> hd s = 41 then Some (tl s) else None)"

definition titleAndClose :: "jsstring \<Rightarrow> jsstring option" where
  "titleAndClose s =
     (case titleGroup s of
        Some r \<Rightarrow> (case closeParen r of Some rest \<Rightarrow> Some rest | None \<Rightarrow> closeParen s)
      | None \<Rightarrow> closeParen s)"

text \<open>
  \<open>/!\[[^\]]*\]\((https?:[^)\s]+)(?:\s+"[^"]*")?\)/g\<close>: the whole reference and the URL.
\<close>

definition urlChar :: "codeunit \<Rightarrow> bool" where
  "urlChar c \<longleftrightarrow> c \<noteq> 41 \<and> \<not> isJsSpace c"

definition matchImageAt :: "jsstring \<Rightarrow> ((jsstring \<times> jsstring) \<times> nat) option" where
  "matchImageAt s =
     (case afterAlt s of
        None \<Rightarrow> None
      | Some s3 \<Rightarrow>
          let k = (if prefix (ascii ''https:'') s3 then 6
                   else if prefix (ascii ''http:'') s3 then 5 else 0);
              rest = takeWhile urlChar (drop k s3)
          in if k = 0 \<or> rest = [] then None
             else (case titleAndClose (dropWhile urlChar (drop k s3)) of
                     None \<Rightarrow> None
                   | Some after \<Rightarrow>
                       Some ((take (length s - length after) s, take k s3 @ rest),
                             length s - length after)))"

text \<open>
  \<open>/!\[[^\]]*\]\((data:image\/[a-zA-Z0-9.+-]+(?:;charset=[^;,)]+)?(?:;base64)?,[^)]+)(?:\s+"[^"]*")?\)/g\<close>.
  The payload \<open>[^)]+\<close> runs to the first closing parenthesis, so the title group never
  takes part in a match.
\<close>

definition mimeChar :: "codeunit \<Rightarrow> bool" where
  "mimeChar c \<longleftrightarrow>
     (97 \<le> c \<and> c \<le> 122) \<or> (65 \<le> c \<and> c \<le> 90) \<or> (48 \<le> c \<and> c \<le> 57)
     \<or> c = 46 \<or> c = 43 \<or> c = 45"

definition afterCharset :: "jsstring \<Rightarrow> jsstring" where
  "afterCharset s =
     (if prefix (ascii '';charset='') s
         \<and> takeWhile (\<lambda>c. c \<noteq> 59 \<and> c \<noteq> 44 \<and> c \<noteq> 41) (drop 9 s) \<noteq> []
      then dropWhile (\<lambda>c. c \<noteq> 59 \<and> c \<noteq> 44 \<and> c \<noteq> 41) (drop 9 s)
      else s)"

definition afterBase64 :: "jsstring \<Rightarrow> jsstring" where
  "afterBase64 s =
     (if prefix (ascii '';base64,'') s then drop 7 s else s)"

definition matchDataAt :: "jsstring \<Rightarrow> ((jsstring \<times> jsstring) \<times> nat) option" where
  "matchDataAt s =
     (case afterAlt s of
        None \<Rightarrow> None
      | Some s3 \<Rightarrow>
          if prefix (ascii ''data:image/'') s3 \<and> takeWhile mimeChar (drop 11 s3) \<noteq> [] then
            let s6 = afterBase64 (afterCharset (dropWhile mimeChar (drop 11 s3)))
            in if s6 \<noteq> [] \<and> hd s6 = 44 \<and> takeWhile (\<lambda>c. c \<noteq> 41) (tl s6) \<noteq> []
                  \<and> dropWhile (\<lambda>c. c \<noteq> 41) (tl s6) \<noteq> []
               then
                 let after = tl (dropWhile (\<lambda>c. c \<noteq> 41) (tl s6))
                 in Some ((take (length s - length after) s,
                           take (length s3 - length after - 1) s3),
                          length s - length after)
               else None
          else None)"

text \<open>\<open>/!\[[^\]]*\]\(data:image\/svg\+xml;[^)]+\)/gi\<close>, the placeholder that is removed.\<close>

definition matchSvgAt :: "jsstring \<Rightarrow> (unit \<times> nat) option" where
  "matchSvgAt s =
     (case afterAlt s of
        None \<Rightarrow> None
      | Some s3 \<Rightarrow>
          if startsWithCI (ascii ''data:image/svg+xml;'') s3
             \<and> takeWhile (\<lambda>c. c \<noteq> 41) (drop 19 s3) \<noteq> []
             \<and> dropWhile (\<lambda>c. c \<noteq> 41) (drop 19 s3) \<noteq> []
          then Some ((), length s - length (tl (dropWhile (\<lambda>c. c \<noteq> 41) (drop 19 s3))))
          else None)"

text \<open>
  What the localizer takes from its host: the SHA-1 digest in hexadecimal, the path of a URL
  (none when \<open>new URL\<close> throws), and whether the payload of a data URL decodes to a
  non-empty buffer.
\<close>

record imageHost =
  digest :: "jsstring \<Rightarrow> jsstring"
  urlPathname :: "jsstring \<Rightarrow> jsstring option"
  decodes :: "jsstring \<Rightarrow> bool"

text \<open>
  \<open>inferImageExt\<close>: \<open>/\.(png|jpe?g|gif|webp|svg|bmp|ico)(?:$|\?)/\<close> on the lower-cased
  path, and \<open>.jpg\<close> when nothing matches.
\<close>

definition extensionAt :: "jsstring \<Rightarrow> jsstring option" where
  "extensionAt s =
     (case filter (\<lambda>e. prefix e s \<and> (drop (length e) s = [] \<or> hd (drop (length e) s) = 63))
             [ascii ''png'', ascii ''jpeg'', ascii ''jpg'', ascii ''gif'', ascii ''webp'',
              ascii ''svg'', ascii ''bmp'', ascii ''ico''] of
        [] \<Rightarrow> None
      | e # _ \<Rightarrow> Some e)"

fun findExtension :: "jsstring \<Rightarrow> jsstring option" where
  "findExtension [] = None"
| "findExtension (c # cs) =
     (if c = 46 then (case extensionAt cs of Some e \<Rightarrow> Some e | None \<Rightarrow> findExtension cs)
      else findExtension cs)"

definition inferImageExt :: "imageHost \<Rightarrow> jsstring \<Rightarrow> jsstring" where
  "inferImageExt h urlStr =
     (case urlPathname h urlStr of
        None \<Rightarrow> ascii ''.jpg''
      | Some p \<Rightarrow>
          (case findExtension (map toLowerAscii p) of
             Some e \<Rightarrow> [46] @ e
           | None \<Rightarrow> ascii ''.jpg''))"

text \<open>The extension of an embedded image, from its media type.\<close>

definition mimeOf :: "jsstring \<Rightarrow> jsstring" where
  "mimeOf dataUrl =
     (if startsWithCI (ascii ''data:'') dataUrl then
        map toLowerAscii (takeWhile (\<lambda>c. c \<noteq> 59 \<and> c \<noteq> 44) (drop 5 dataUrl))
      else ascii ''image/jpeg'')"

definition dataExt :: "jsstring \<Rightarrow> jsstring" where
  "dataExt mime =
     (if sublist (ascii ''png'') mime then ascii ''.png''
      else if sublist (ascii ''jpeg'') mime \<or> sublist (ascii ''jpg'') mime then ascii ''.jpg''
      else if sublist (ascii ''gif'') mime then ascii ''.gif''
      else if sublist (ascii ''webp'') mime then ascii ''.webp''
      else if sublist (ascii ''bmp'') mime then ascii ''.bmp''
      else if sublist (ascii ''svg'') mime then ascii ''.svg''
      else if sublist (ascii ''x-icon'') mime \<or> sublist (ascii ''vnd.microsoft.icon'') mime
              \<or> sublist (ascii ''ico'') mime then ascii ''.ico''
      else ascii ''.jpg'')"

text \<open>
  A task: the whole reference, its locator, the name of the target file, and whether it
  resolved.
\<close>

record imageTask =
  taskFull :: jsstring
  taskLocator :: jsstring
  taskFile :: jsstring
  taskOk :: bool

definition remoteTask :: "imageHost \<Rightarrow> jsstring \<times> jsstring \<Rightarrow> imageTask" where
  "remoteTask h m =
     \<lparr> taskFull = fst m, taskLocator = snd m,
       taskFile = take 32 (digest h (snd m)) @ inferImageExt h (snd m), taskOk = False \<rparr>"

definition embeddedTask :: "imageHost \<Rightarrow> jsstring \<times> jsstring \<Rightarrow> imageTask" where
  "embeddedTask h m =
     \<lparr> taskFull = fst m, taskLocator = snd m,
       taskFile = take 32 (digest h (snd m)) @ dataExt (mimeOf (snd m)), taskOk = False \<rparr>"

text \<open>
  The image directory is the list of the names of its files. A task whose target file
  exists resolves without a fetch; otherwise \<open>resolves\<close> tells whether the download (or
  the decoding) succeeds, and a success adds the file and counts as one download. The
  workers of the pool take the tasks in order; the model runs them one after the other.
\<close>

fun runTasks ::
  "(jsstring \<Rightarrow> bool) \<Rightarrow> imageTask list \<Rightarrow> jsstring list \<Rightarrow> nat
     \<Rightarrow> imageTask list \<times> jsstring list \<times> nat" where
  "runTasks resolves [] images downloaded = ([], images, downloaded)"
| "runTasks resolves (t # ts) images downloaded =
     (if taskFile t \<in> set images then
        (let (ts', images', downloaded') = runTasks resolves ts images downloaded
         in (t\<lparr>taskOk := True\<rparr> # ts', images', downloaded'))
      else if resolves (taskLocator t) then
        (let (ts', images', downloaded') =
               runTasks resolves ts (images @ [taskFile t]) (downloaded + 1)
         in (t\<lparr>taskOk := True\<rparr> # ts', images', downloaded'))
      else
        (let (ts', images', downloaded') = runTasks resolves ts images downloaded
         in (t\<lparr>taskOk := False\<rparr> # ts', images', downloaded')))"

text \<open>\<open>t.full.replace(t.url, t.localRel)\<close>: the first occurrence of a literal pattern.\<close>

fun replaceFirst :: "jsstring \<Rightarrow> jsstring \<Rightarrow> jsstring \<Rightarrow> jsstring" where
  "replaceFirst pat rep [] = (if pat = [] then rep else [])"
| "replaceFirst pat rep (c # cs) =
     (if prefix pat (c # cs) then rep @ drop (length pat) (c # cs)
      else c # replaceFirst pat rep cs)"

definition replacement :: "imageTask \<Rightarrow> jsstring \<times> jsstring" where
  "replacement t =
     (taskFull t,
      replaceFirst (taskLocator t) (ascii ''images/'' @ taskFile t) (taskFull t))"

text \<open>
  One Markdown file: the new content when the file is written, the image directory and the
  count of downloads.
\<close>

definition localizeFile ::
  "imageHost \<Rightarrow> (jsstring \<Rightarrow> bool) \<Rightarrow> jsstring \<Rightarrow> jsstring list \<Rightarrow> nat
     \<Rightarrow> jsstring option \<times> jsstring list \<times> nat" where
  "localizeFile h reachable fileContent images downloaded =
     (let raw = removeMatches matchSvgAt fileContent;
          tasks = map (remoteTask h) (scanAll matchImageAt raw);
          dataTasks = map (embeddedTask h) (scanAll matchDataAt raw)
      in if tasks = [] \<and> dataTasks = [] then (None, images, downloaded)
         else
           let (tasks1, images1, downloaded1) = runTasks reachable tasks images downloaded;
               (dataTasks1, images2, downloaded2) =
                 runTasks (decodes h) dataTasks images1 downloaded1;
               replacements = map replacement (filter taskOk tasks1 @ filter taskOk dataTasks1)
           in if replacements \<noteq> []
              then (Some (foldl (\<lambda>updated r. replaceAll (fst r) (snd r) updated) raw replacements),
                    images2, downloaded2)
              else (None, images2, downloaded2))"

text \<open>
  The directory: the entries of \<open>papers\<close> by name, of which those ending in \<open>.md\<close> are
  processed in order, and the image directory. The result also counts the downloads.
\<close>

record paperStore =
  entries :: "(jsstring \<times> jsstring) list"
  imageFiles :: "jsstring list"

fun localizeEntries ::
  "imageHost \<Rightarrow> (jsstring \<Rightarrow> bool) \<Rightarrow> (jsstring \<times> jsstring) list \<Rightarrow> jsstring list \<Rightarrow> nat
     \<Rightarrow> (jsstring \<times> jsstring) list \<times> jsstring list \<times> nat" where
  "localizeEntries h reachable [] images downloaded = ([], images, downloaded)"
| "localizeEntries h reachable ((mdName, fileContent) # rest) images downloaded =
     (if suffix (ascii ''.md'') (map toLowerAscii mdName) then
        (let (updated, images1, downloaded1) =
               localizeFile h reachable fileContent images downloaded;
             (rest', images2, downloaded2) = localizeEntries h reachable rest images1 downloaded1
         in ((mdName, (case updated of Some u \<Rightarrow> u | None \<Rightarrow> fileContent)) # rest',
             images2, downloaded2))
      else
        (let (rest', images2, downloaded2) = localizeEntries h reachable rest images downloaded
         in ((mdName, fileContent) # rest', images2, downloaded2)))"

definition localizeImagesInPapers ::
  "imageHost \<Rightarrow> (jsstring \<Rightarrow> bool) \<Rightarrow> paperStore \<Rightarrow> paperStore \<times> nat" where
  "localizeImagesInPapers h reachable store =
     (let (entries', images', downloaded) =
            localizeEntries h reachable (entries store) (imageFiles store) 0
      in (\<lparr> entries = entries', imageFiles = images' \<rparr>, downloaded))"

section \<open>Example inputs\<close>

definition exampleHost :: host where
  "exampleHost =
     \<lparr> parseDate = (\<lambda>s. Invalid), sha1 = (\<lambda>s. s),
       generateSingleArticleMarkdown = (\<lambda>a. case content a of Some c \<Rightarrow> c | None \<Rightarrow> []),
       writeThrows = (\<lambda>n. False) \<rparr>"

definition exampleConfig :: config where
  "exampleConfig =
     \<lparr> startDate = None, endDate = None, targetDate = None, fetchFullContent = True,
       maxPages = 1, concurrency = 1 \<rparr>"

definition exampleArticle :: "string \<Rightarrow> string \<Rightarrow> article" where
  "exampleArticle t l =
     \<lparr> title = ascii t, link = ascii l, publishTime = ascii ''2025-06-15 08:49'',
       category = [], author = [], extractedAt = [], content = None \<rparr>"

definition exampleParse :: "jsstring \<Rightarrow> jsdate" where
  "exampleParse s =
     (if s = ascii ''2025-01-01'' then Valid 1735689600000
      else if s = ascii ''2025-03-01'' then Valid 1740787200000
      else if s = ascii ''2025-06-15'' then Valid 1749945600000
      else if s = ascii ''2025-09-01'' then Valid 1756684800000
      else if s = ascii ''2025-12-31'' then Valid 1767139200000
      else Invalid)"

definition datedHost :: host where
  "datedHost = exampleHost\<lparr>parseDate := exampleParse\<rparr>"

definition datedArticle :: "string \<Rightarrow> string \<Rightarrow> string \<Rightarrow> article" where
  "datedArticle t l d = (exampleArticle t l)\<lparr>publishTime := ascii d\<rparr>"

text \<open>
  A run with the single threshold 2025-03-01 over a listing of five pages, each holding one
  entry dated 2025-01-01; every worker finds nothing to do and leaves its loop.
\<close>

definition thresholdConfig :: config where
  "thresholdConfig = constructor datedHost None None (Some (ascii ''2025-03-01'')) True 10 1"

definition oldListing :: "article list list" where
  "oldListing = replicate 5 [datedArticle ''Old entry'' ''https://xz.aliyun.com/news/1'' ''2025-01-01'']"

definition goodFetch :: "nat \<Rightarrow> fetched" where
  "goodFetch k = \<lparr> fetchedTitle = ascii ''Article A'', fetchedContent = ascii ''body'' \<rparr>"

definition repeatedListing :: "article list list" where
  "repeatedListing =
     [[exampleArticle ''Article A'' ''https://xz.aliyun.com/news/1''],
      [exampleArticle ''Article A'' ''https://xz.aliyun.com/news/1'']]"

definition repeatedSchedule :: "nat \<Rightarrow> event list" where
  "repeatedSchedule n =
     (if n = 1 then [Pick 0, FetchDone 0 goodFetch, Resume 0, Pick 0] else [Pick 0, Pick 0])"

definition twoPages :: config where
  "twoPages = exampleConfig\<lparr>maxPages := 2\<rparr>"

definition crawledOnce :: crawler where
  "crawledOnce =
     \<lparr> articles = [refineTitle (exampleArticle ''Article A'' ''https://xz.aliyun.com/news/1'') (goodFetch 0)],
       failures = [], seenKeys = [ascii ''https://xz.aliyun.com/news/1''],
       summaryUpdateCounter = 1, aborted = False,
       disk = \<lparr> papersDirExists = True, files = [ascii ''Article_A.md'' \<mapsto> ascii ''body''] \<rparr>,
       realtimeSummary = None \<rparr>"




text \<open>
  A code card whose mode is \<open>shell\<close>, one whose language is \<open>shell\<close>, and one whose only line
  holds a zero-width space and a line break.
\<close>

definition shellCard :: "node list" where
  "shellCard =
     [Element (ascii ''div'') [(ascii ''data-codeblock-mode'', ascii ''shell'')]
        [Element (ascii ''div'') [(ascii ''class'', ascii ''cm-line'')] [TextNode (ascii ''ls'')]]]"


definition shellLanguageCard :: "node list" where
  "shellLanguageCard =
     [Element (ascii ''div'') [(ascii ''data-language'', ascii ''shell'')]
        [Element (ascii ''div'') [(ascii ''class'', ascii ''cm-line'')]
           [Element (ascii ''span'') [] [TextNode (ascii ''ls'')], Element (ascii ''br'') [] []],
         Element (ascii ''div'') [(ascii ''class'', ascii ''cm-line extra'')]
           [TextNode (8203 # ascii ''pwd'')]]]"

definition emptyCard :: "node list" where
  "emptyCard =
     [Element (ascii ''div'') [(ascii ''class'', ascii ''cm-line'')]
        [TextNode [8203], Element (ascii ''br'') [] []]]"

text \<open>Table cells and rows with plain text.\<close>

definition td :: "string \<Rightarrow> node" where
  "td s = Element (ascii ''td'') [] [TextNode (ascii s)]"

definition tr :: "node list \<Rightarrow> node" where
  "tr cells = Element (ascii ''tr'') [] cells"

text \<open>
  A host whose digest is always \<open>0f\<close>, a file whose reference has its URL as alternative text,
  and a file with an ordinary reference.
\<close>

definition shortDigest :: imageHost where
  "shortDigest =
     \<lparr> digest = (\<lambda>s. ascii ''0f''),
       urlPathname = (\<lambda>u. Some (dropWhile (\<lambda>c. c \<noteq> 47) (drop 7 u))),
       decodes = (\<lambda>d. True) \<rparr>"

definition altIsUrl :: paperStore where
  "altIsUrl =
     \<lparr> entries = [(ascii ''a.md'', ascii ''![http://h/b.png](http://h/b.png)'')],
       imageFiles = [] \<rparr>"

definition plainReference :: paperStore where
  "plainReference =
     \<lparr> entries = [(ascii ''a.md'', ascii ''x ![pic](http://h/b.png) y'')], imageFiles = [] \<rparr>"

section \<open>Properties of inline code fencing\<close>

lemma sublist_rep_Cons_neq:
  "c \<noteq> b \<Longrightarrow> sublist (replicate n b) (c # cs) \<longleftrightarrow> sublist (replicate n b) cs"
  by (cases n) (auto simp: sublist_Cons_right prefix_Cons)

lemma dropWhile_hd_neq: "dropWhile P xs = y # ys \<Longrightarrow> \<not> P y"
  by (metis hd_dropWhile list.distinct(1) list.sel(1))

lemma prefix_replicate_dropWhile:
  "prefix (replicate n b) (dropWhile (\<lambda>x. x = b) xs) \<Longrightarrow> n = 0"
  by (cases n; cases "dropWhile (\<lambda>x. x = b) xs") (auto dest: dropWhile_hd_neq)

lemma suffix_replicate_takeWhile:
  "suffix r (takeWhile (\<lambda>x. x = b) xs) \<Longrightarrow> length r \<le> length (takeWhile (\<lambda>x. x = b) xs)"
  by (simp add: suffix_length_le)

lemma sublist_replicate_split:
  assumes "sublist (replicate n b) xs"
  shows "n \<le> length (takeWhile (\<lambda>x. x = b) xs) \<or> sublist (replicate n b) (dropWhile (\<lambda>x. x = b) xs)"
proof -
  have "sublist (replicate n b) (takeWhile (\<lambda>x. x = b) xs @ dropWhile (\<lambda>x. x = b) xs)"
    using assms by simp
  then consider "sublist (replicate n b) (takeWhile (\<lambda>x. x = b) xs)"
    | "sublist (replicate n b) (dropWhile (\<lambda>x. x = b) xs)"
    | r1 r2 where "replicate n b = r1 @ r2" "suffix r1 (takeWhile (\<lambda>x. x = b) xs)"
        "prefix r2 (dropWhile (\<lambda>x. x = b) xs)"
    unfolding sublist_append by blast
  then show ?thesis
  proof cases
    case 1
    then show ?thesis by (metis length_replicate sublist_length_le)
  next
    case 2
    then show ?thesis by simp
  next
    case 3
    from 3(1) have "r2 = replicate (length r2) b"
      by (metis append_eq_conv_conj drop_replicate length_drop length_replicate)
    with 3(3) have "length r2 = 0"
      using prefix_replicate_dropWhile by metis
    with 3(1) have "r1 = replicate n b" by simp
    with 3(2) show ?thesis
      by (metis length_replicate suffix_length_le)
  qed
qed

lemma backtickRuns_covers:
  "sublist (replicate n BT) s \<Longrightarrow> 0 < n \<Longrightarrow> \<exists>r \<in> set (backtickRuns s). n \<le> length r"
proof (induction s rule: backtickRuns.induct)
  case 1
  then show ?case by simp
next
  case (2 c cs)
  show ?case
  proof (cases "c = BT")
    case False
    with 2 show ?thesis by (simp add: sublist_rep_Cons_neq)
  next
    case True
    have "sublist (replicate n BT) (c # cs)" by fact
    then have "n \<le> length (takeWhile (\<lambda>x. x = BT) (c # cs))
       \<or> sublist (replicate n BT) (dropWhile (\<lambda>x. x = BT) (c # cs))"
      by (rule sublist_replicate_split)
    with True 2 show ?thesis by auto
  qed
qed

lemma backtickRuns_sound:
  "r \<in> set (backtickRuns s) \<Longrightarrow> r \<noteq> [] \<and> r = replicate (length r) BT \<and> sublist r s"
proof (induction s rule: backtickRuns.induct)
  case 1
  then show ?case by simp
next
  case (2 c cs)
  show ?case
  proof (cases "c = BT")
    case False
    with 2 show ?thesis by (auto simp: sublist_Cons_right)
  next
    case True
    let ?tw = "takeWhile (\<lambda>x. x = BT) cs" and ?dw = "dropWhile (\<lambda>x. x = BT) cs"
    from 2(3) True consider "r = c # ?tw" | "r \<in> set (backtickRuns ?dw)" by auto
    then show ?thesis
    proof cases
      case 1
      have tw: "?tw = replicate (length ?tw) BT"
        by (metis (mono_tags, lifting) replicate_length_same set_takeWhileD)
      have "prefix (c # ?tw) (c # cs)"
        by (metis Cons_prefix_Cons takeWhile_dropWhile_id prefixI)
      then have "sublist (c # ?tw) (c # cs)" by (rule prefix_imp_sublist)
      with 1 True tw show ?thesis 
        by (metis length_Cons list.distinct(1) replicate_Suc)
    next
      case 2
      with "2.IH"(1) True have r: "r \<noteq> [] \<and> r = replicate (length r) BT \<and> sublist r ?dw" by simp
      have "suffix ?dw (c # cs)"
        by (metis suffix_dropWhile suffix_ConsI)
      with r show ?thesis
        using sublist_order.order_trans suffix_imp_sublist by blast 
    qed
  qed
qed


lemma finite_backtick_sublists: "finite {n. sublist (replicate n BT) raw}"
proof (rule finite_subset)
  show "{n. sublist (replicate n BT) raw} \<subseteq> {..length raw}"
    using sublist_length_le by fastforce
qed simp

lemma fenceLen_longest_run:
  "fenceLen raw = Suc (Max {n. sublist (replicate n BT) raw})"
proof (cases "backtickRuns raw = []")
  case True
  have "{n. sublist (replicate n BT) raw} = {0}"
  proof -
    have "\<not> sublist (replicate n BT) raw" if "0 < n" for n
      using backtickRuns_covers [OF _ that, of raw] True by auto
    then show ?thesis by (auto intro: gr0I)
  qed
  with True show ?thesis by (simp add: fenceLen_def)
next
  case False
  let ?L = "set (map length (backtickRuns raw))"
  have fin: "finite ?L" and ne: "?L \<noteq> {}" using False by auto
  have "Max ?L \<in> ?L" using fin ne by (rule Max_in)
  then obtain r where r: "r \<in> set (backtickRuns raw)" "length r = Max ?L" by auto
  have in_S: "sublist (replicate (Max ?L) BT) raw"
    using backtickRuns_sound [OF r(1)] r(2) by metis
  have ub: "n \<le> Max ?L" if h: "sublist (replicate n BT) raw" for n
  proof (cases "n = 0")
    case False
    then obtain r' where "r' \<in> set (backtickRuns raw)" "n \<le> length r'"
      using backtickRuns_covers [OF h] by auto
    then have "length r' \<in> ?L" "n \<le> length r'" by auto
    then show ?thesis using fin by (meson Max_ge le_trans)
  qed simp
  have "Max {n. sublist (replicate n BT) raw} = Max ?L"
    by (rule Max_eqI) (use finite_backtick_sublists in_S ub in auto)
  with False show ?thesis by (simp add: fenceLen_def)
qed

lemma fence_not_in_raw: "\<not> sublist (replicate (fenceLen raw) BT) raw"
proof
  assume "sublist (replicate (fenceLen raw) BT) raw"
  then have "fenceLen raw \<in> {n. sublist (replicate n BT) raw}" by simp
  then have "fenceLen raw \<le> Max {n. sublist (replicate n BT) raw}"
    using finite_backtick_sublists by (rule Max_ge [rotated])
  then show False by (simp add: fenceLen_longest_run)
qed

lemma replaceNewlineRuns_no_LF: "LF \<notin> set (replaceNewlineRuns s)"
  by (induction s rule: replaceNewlineRuns.induct) auto

lemma replaceNewlineRuns_id: "LF \<notin> set s \<Longrightarrow> replaceNewlineRuns s = s"
  by (induction s) auto

lemma replaceNewlineRuns_run_front:
  "ys = [] \<or> hd ys \<noteq> LF \<Longrightarrow>
   replaceNewlineRuns (replicate (Suc n) LF @ ys) = SP # replaceNewlineRuns ys"
  by (cases ys) (auto simp: dropWhile_append3)

lemma replaceNewlineRuns_run:
  "xs = [] \<or> last xs \<noteq> LF \<Longrightarrow> ys = [] \<or> hd ys \<noteq> LF \<Longrightarrow>
   replaceNewlineRuns (xs @ replicate (Suc n) LF @ ys)
     = replaceNewlineRuns xs @ SP # replaceNewlineRuns ys"
proof (induction xs rule: replaceNewlineRuns.induct)
  case 1
  then show ?case using replaceNewlineRuns_run_front by simp
next
  case (2 c cs)
  show ?case
  proof (cases "c = LF")
    case False
    with 2 show ?thesis by (cases cs) auto
  next
    case True
    let ?dw = "dropWhile (\<lambda>x. x = LF) cs"
    from 2(3) True have cs: "cs \<noteq> []" "last cs \<noteq> LF" by (auto split: if_splits)
    then have dne: "?dw \<noteq> []" 
      by (metis (mono_tags, lifting) dropWhile_eq_Nil_conv last_in_set)
    then have lastd: "last ?dw \<noteq> LF"
      using cs by (metis (no_types, lifting) append_Nil2 last_appendR takeWhile_dropWhile_id)
    have "dropWhile (\<lambda>x. x = LF) (cs @ replicate (Suc n) LF @ ys)
          = ?dw @ replicate (Suc n) LF @ ys"
      using dne by (metis (mono_tags, lifting) dropWhile_append1 dropWhile_eq_Nil_conv)
    with "2.IH"(1) [OF True] lastd dne 2(4) True show ?thesis by simp
  qed
qed

text \<open>
  Claim C1. For every text content of an inline-code node: the collapsed content has no line
  feed, content without line feeds is unchanged, and a run of line feeds between two parts
  becomes exactly one space; the fence length is the longest run of consecutive backticks of
  the collapsed content plus one, hence at least 1; the result is fence, content, fence, with
  one space on each side of the content exactly when the content starts or ends with a
  backtick or a space; and the fence is not a contiguous substring of the collapsed content.
\<close>

theorem inline_code_fence:
  "LF \<notin> set (replaceNewlineRuns s)
   \<and> (LF \<notin> set s \<longrightarrow> replaceNewlineRuns s = s)
   \<and> ((xs = [] \<or> last xs \<noteq> LF) \<and> (ys = [] \<or> hd ys \<noteq> LF) \<longrightarrow>
        replaceNewlineRuns (xs @ replicate (Suc n) LF @ ys)
          = replaceNewlineRuns xs @ SP # replaceNewlineRuns ys)
   \<and> fenceLen (replaceNewlineRuns s)
        = Max {k. sublist (replicate k BT) (replaceNewlineRuns s)} + 1
   \<and> 1 \<le> fenceLen (replaceNewlineRuns s)
   \<and> inlineCode s =
        (if prefix [BT] (replaceNewlineRuns s) \<or> suffix [BT] (replaceNewlineRuns s)
            \<or> prefix [SP] (replaceNewlineRuns s) \<or> suffix [SP] (replaceNewlineRuns s)
         then replicate (fenceLen (replaceNewlineRuns s)) BT @ [SP] @ replaceNewlineRuns s
                @ [SP] @ replicate (fenceLen (replaceNewlineRuns s)) BT
         else replicate (fenceLen (replaceNewlineRuns s)) BT @ replaceNewlineRuns s
                @ replicate (fenceLen (replaceNewlineRuns s)) BT)
   \<and> \<not> sublist (replicate (fenceLen (replaceNewlineRuns s)) BT) (replaceNewlineRuns s)"
  using replaceNewlineRuns_no_LF [of s] replaceNewlineRuns_id [of s]
    replaceNewlineRuns_run [of xs ys n] fenceLen_longest_run [of "replaceNewlineRuns s"]
    fence_not_in_raw [of "replaceNewlineRuns s"]
  by (simp add: inlineCode_def needsPadding_def Let_def)


theorem inline_code_fence_witness:
  "replaceNewlineRuns ([97] @ replicate (Suc 1) LF @ [98]) = [97, SP, 98]
   \<and> fenceLen (replaceNewlineRuns [97, LF, LF, BT, BT, 98, BT]) = 3
   \<and> inlineCode [97, LF, LF, BT, BT, 98, BT]
       = [BT, BT, BT, SP, 97, SP, BT, BT, 98, BT, SP, BT, BT, BT]
   \<and> \<not> sublist [BT, BT, BT] [97, SP, BT, BT, 98, BT]"
proof -
  note th = inline_code_fence [of "[97, LF, LF, BT, BT, 98, BT]" "[97]" "[98]" 1]
  have hyp: "([97::codeunit] = [] \<or> last [97] \<noteq> LF) \<and> ([98::codeunit] = [] \<or> hd [98] \<noteq> LF)"
    by simp
  from th hyp have "replaceNewlineRuns ([97] @ replicate (Suc 1) LF @ [98])
      = replaceNewlineRuns [97] @ SP # replaceNewlineRuns [98]"
    by blast
  then have a: "replaceNewlineRuns ([97] @ replicate (Suc 1) LF @ [98]) = [97, SP, 98]"
    by simp
  have raw: "replaceNewlineRuns [97, LF, LF, BT, BT, 98, BT] = [97, SP, BT, BT, 98, BT]"
    by simp
  have b: "fenceLen [97, SP, BT, BT, 98, BT] = 3"
    by (simp add: fenceLen_def)
  from th have "\<not> sublist (replicate (fenceLen (replaceNewlineRuns [97, LF, LF, BT, BT, 98, BT])) BT)
      (replaceNewlineRuns [97, LF, LF, BT, BT, 98, BT])"
    by blast
  then have d: "\<not> sublist [BT, BT, BT] [97, SP, BT, BT, 98, BT]"
    unfolding raw b by (simp add: numeral_3_eq_3)
  from th have "inlineCode [97, LF, LF, BT, BT, 98, BT] =
        (if prefix [BT] (replaceNewlineRuns [97, LF, LF, BT, BT, 98, BT])
            \<or> suffix [BT] (replaceNewlineRuns [97, LF, LF, BT, BT, 98, BT])
            \<or> prefix [SP] (replaceNewlineRuns [97, LF, LF, BT, BT, 98, BT])
            \<or> suffix [SP] (replaceNewlineRuns [97, LF, LF, BT, BT, 98, BT])
         then replicate (fenceLen (replaceNewlineRuns [97, LF, LF, BT, BT, 98, BT])) BT @ [SP]
                @ replaceNewlineRuns [97, LF, LF, BT, BT, 98, BT]
                @ [SP] @ replicate (fenceLen (replaceNewlineRuns [97, LF, LF, BT, BT, 98, BT])) BT
         else replicate (fenceLen (replaceNewlineRuns [97, LF, LF, BT, BT, 98, BT])) BT
                @ replaceNewlineRuns [97, LF, LF, BT, BT, 98, BT]
                @ replicate (fenceLen (replaceNewlineRuns [97, LF, LF, BT, BT, 98, BT])) BT)"
    by blast
  then have c: "inlineCode [97, LF, LF, BT, BT, 98, BT]
       = [BT, BT, BT, SP, 97, SP, BT, BT, 98, BT, SP, BT, BT, BT]"
    unfolding raw b by (simp add: numeral_3_eq_3 suffix_def)
  show ?thesis unfolding raw using a b c d by simp
qed

section \<open>Properties of the window filter\<close>

lemma keepArticle_missing: "publishTime a = [] \<Longrightarrow> \<not> keepArticle h cfg a"
  by (simp add: keepArticle_def)

lemma keepArticle_range:
  "startDate cfg \<noteq> None \<or> endDate cfg \<noteq> None \<Longrightarrow>
   keepArticle h cfg a \<longleftrightarrow>
     publishTime a \<noteq> []
     \<and> (case startDate cfg of Some s \<Rightarrow> date_ge (parseDate h (publishTime a)) s | None \<Rightarrow> True)
     \<and> (case endDate cfg of Some e \<Rightarrow> date_le (parseDate h (publishTime a)) e | None \<Rightarrow> True)"
  by (auto simp: keepArticle_def Let_def split: option.splits)

lemma keepArticle_target:
  "startDate cfg = None \<Longrightarrow> endDate cfg = None \<Longrightarrow> targetDate cfg = Some t \<Longrightarrow>
   keepArticle h cfg a \<longleftrightarrow> publishTime a \<noteq> [] \<and> date_gt (parseDate h (publishTime a)) t"
  by (auto simp: keepArticle_def Let_def)

lemma keepArticle_invalid_with_window:
  "thresholdDate cfg \<noteq> None \<or> endDate cfg \<noteq> None \<Longrightarrow> parseDate h (publishTime a) = Invalid \<Longrightarrow>
   \<not> keepArticle h cfg a"
  by (auto simp: keepArticle_def Let_def thresholdDate_def split: option.splits)

lemma keepArticle_no_window:
  "startDate cfg = None \<Longrightarrow> endDate cfg = None \<Longrightarrow> targetDate cfg = None \<Longrightarrow>
   keepArticle h cfg a \<longleftrightarrow> publishTime a \<noteq> []"
  by (auto simp: keepArticle_def Let_def)

text \<open>The example of the specification, for any parser that orders the five dates.\<close>

lemma keepArticle_example:
  assumes "parseDate h d1 = Valid t1" "parseDate h s = Valid ts" "parseDate h d2 = Valid t2"
    "parseDate h e = Valid te" "parseDate h d3 = Valid t3"
    "t1 < ts" "ts < t2" "t2 < te" "te < t3" "d1 \<noteq> []" "d2 \<noteq> []" "d3 \<noteq> []" "s \<noteq> []" "e \<noteq> []"
    "publishTime a1 = d1" "publishTime a2 = d2" "publishTime a3 = d3"
  shows "filteredArticles h (constructor h (Some s) (Some e) None True 1 3) [a1, a2, a3] = [a2]"
  using assms
  by (simp add: filteredArticles_def keepArticle_def constructor_def optDate_def Let_def)

text \<open>
  Claim C5. The filter keeps an entry with a timestamp inside the window and drops every
  entry without a timestamp (lemmas above). The claim also says that every entry with an
  unparseable timestamp is dropped. \<open>new Date\<close> does not throw on such a string, so the
  \<open>catch\<close> branch that would drop the entry never runs: with no date configured, an entry
  whose timestamp parses to an Invalid Date is kept.
\<close>

theorem window_filter_keeps_unparseable:
  "keepArticle
     \<lparr> parseDate = (\<lambda>s. Invalid), sha1 = (\<lambda>s. s), generateSingleArticleMarkdown = (\<lambda>a. []),
       writeThrows = (\<lambda>n. False) \<rparr>
     \<lparr> startDate = None, endDate = None, targetDate = None, fetchFullContent = True,
       maxPages = 1, concurrency = 3 \<rparr>
     \<lparr> title = ascii ''Some article'', link = ascii ''https://xz.aliyun.com/news/1'',
       publishTime = ascii ''2025-13-45 99:99'', category = [], author = [],
       extractedAt = [], content = None \<rparr>"
  by (simp add: keepArticle_def ascii_def)

section \<open>Properties of the retry loop\<close>

declare retryLoop.simps [simp del]

lemma retryLoop_success:
  "a \<le> n \<Longrightarrow> n \<le> r \<Longrightarrow> (\<forall>i. a \<le> i \<and> i < n \<longrightarrow> looksFailed (fetch i)) \<Longrightarrow>
   \<not> looksFailed (fetch n) \<Longrightarrow> (\<forall>k\<le>n. \<not> ab k) \<Longrightarrow>
   retryLoop fetch ab r base a le ds = (Inr (fetch n), ds @ map (\<lambda>i. base * 2 ^ i) [a..<n])"
proof (induction "n - a" arbitrary: a le ds)
  case 0
  then have "a = n" by simp
  with 0 show ?case by (subst retryLoop.simps) simp
next
  case (Suc d)
  then have lt: "a < n" and fa: "looksFailed (fetch a)" and na: "\<not> ab a" by auto
  have "retryLoop fetch ab r base (a + 1) (Some (failureMessage (fetch a)))
          (ds @ [base * 2 ^ a])
        = (Inr (fetch n), (ds @ [base * 2 ^ a]) @ map (\<lambda>i. base * 2 ^ i) [a + 1..<n])"
    using Suc by (intro Suc.hyps(1)) auto
  moreover have "[a..<n] = a # [a + 1..<n]" using lt by (simp add: upt_conv_Cons)
  ultimately show ?case
    using lt fa na Suc.prems(2) by (subst retryLoop.simps) (simp add: Let_def)
qed

lemma retryLoop_exhausted:
  "a \<le> r \<Longrightarrow> (\<forall>i. a \<le> i \<and> i \<le> r \<longrightarrow> looksFailed (fetch i)) \<Longrightarrow> (\<forall>k\<le>r. \<not> ab k) \<Longrightarrow>
   retryLoop fetch ab r base a le ds
     = (Inl (failureMessage (fetch r)), ds @ map (\<lambda>i. base * 2 ^ i) [a..<r])"
proof (induction "r - a" arbitrary: a le ds)
  case 0
  then have "a = r" by simp
  with 0 show ?case by (subst retryLoop.simps) simp
next
  case (Suc d)
  then have lt: "a < r" and fa: "looksFailed (fetch a)" and na: "\<not> ab a" by auto
  have "retryLoop fetch ab r base (a + 1) (Some (failureMessage (fetch a)))
          (ds @ [base * 2 ^ a])
        = (Inl (failureMessage (fetch r)),
           (ds @ [base * 2 ^ a]) @ map (\<lambda>i. base * 2 ^ i) [a + 1..<r])"
    using Suc by (intro Suc.hyps(1)) auto
  moreover have "[a..<r] = a # [a + 1..<r]" using lt by (simp add: upt_conv_Cons)
  ultimately show ?case
    using lt fa na by (subst retryLoop.simps) (simp add: Let_def)
qed

lemma retryLoop_delays:
  "length (snd (retryLoop fetch ab r base a le ds)) \<le> length ds + (r - a)"
proof (induction fetch ab r base a le ds rule: retryLoop.induct)
  case (1 fetch ab r base a le ds)
  show ?case
  proof (cases "a \<le> r \<and> \<not> ab a \<and> looksFailed (fetch a) \<and> a \<noteq> r")
    case True
    then have "length (snd (retryLoop fetch ab r base (a + 1) (Some (failureMessage (fetch a)))
                 (ds @ [base * 2 ^ a]))) \<le> length (ds @ [base * 2 ^ a]) + (r - (a + 1))"
      by (intro 1) auto
    moreover from True have "a < r" by simp
    ultimately have "length (snd (retryLoop fetch ab r base (a + 1)
                 (Some (failureMessage (fetch a))) (ds @ [base * 2 ^ a]))) \<le> length ds + (r - a)"
      by simp
    with True show ?thesis by (subst retryLoop.simps) (simp add: Let_def)
  next
    case False
    then show ?thesis by (subst retryLoop.simps) (auto simp: Let_def)
  qed
qed


lemma fetchDone_all_failed:
  assumes "w < length (workers p)" "workers p ! w = Fetching item key" "\<not> aborted p"
    "\<forall>i. looksFailed (fetch i)"
  shows "step h cfg p (FetchDone w fetch)
     = p\<lparr>failures := failures p @
            [\<lparr> failedLink = link item,
               failedTitle = (if trim (title item) \<noteq> [] then trim (title item) else unknownTitle),
               failedError = failureMessage (fetch 1) \<rparr>],
          workers := (workers p)[w := Idle]\<rparr>"
proof -
  have "fetchArticleContentWithRetry fetch (\<lambda>_. aborted p) 1 800
      = (Inl (failureMessage (fetch 1)), [] @ map (\<lambda>i. 800 * 2 ^ i) [0..<1])"
    unfolding fetchArticleContentWithRetry_def
    using assms(3,4) by (intro retryLoop_exhausted) auto
  with assms show ?thesis
    by (simp add: step_def fetchDone_def failureRecord_def)
qed

text \<open>
  Claim C4. While no cancellation is observed: at most \<open>r\<close> delays are slept, so at most
  \<open>r + 1\<close> attempts are made; when the attempts before the \<open>n\<close>-th all look failed and the
  \<open>n\<close>-th does not, with \<open>n \<le> r\<close>, the result is that of the \<open>n\<close>-th attempt and the delay
  slept after attempt \<open>i\<close> is the base delay times \<open>2 ^ i\<close>; in particular two failures, then
  a success, give the successful record whenever \<open>r \<ge> 2\<close>; when all \<open>r + 1\<close> attempts look
  failed the call throws the last failure's message; and in the worker pool (which calls
  with \<open>r = 1\<close> and a base delay of 800) a fetch that always fails appends exactly one
  failure record with the link, the title and the message, leaves everything else as it
  was and puts the worker back at the head of its loop.
\<close>

theorem fetch_retry_backoff:
  "(\<forall>k. \<not> abortedAt k) \<longrightarrow>
     length (snd (fetchArticleContentWithRetry fetch abortedAt r baseDelay)) \<le> r
   \<and> (n \<le> r \<and> (\<forall>i<n. looksFailed (fetch i)) \<and> \<not> looksFailed (fetch n) \<longrightarrow>
        fetchArticleContentWithRetry fetch abortedAt r baseDelay
          = (Inr (fetch n), map (\<lambda>i. baseDelay * 2 ^ i) [0..<n]))
   \<and> (2 \<le> r \<and> looksFailed (fetch 0) \<and> looksFailed (fetch 1) \<and> \<not> looksFailed (fetch 2) \<longrightarrow>
        fst (fetchArticleContentWithRetry fetch abortedAt r baseDelay) = Inr (fetch 2))
   \<and> ((\<forall>i\<le>r. looksFailed (fetch i)) \<longrightarrow>
        fetchArticleContentWithRetry fetch abortedAt r baseDelay
          = (Inl (failureMessage (fetch r)), map (\<lambda>i. baseDelay * 2 ^ i) [0..<r]))
   \<and> (w < length (workers p) \<and> workers p ! w = Fetching item key \<and> \<not> aborted p
        \<and> (\<forall>i. looksFailed (fetch i)) \<longrightarrow>
        step h cfg p (FetchDone w fetch)
          = p\<lparr>failures := failures p @
                 [\<lparr> failedLink = link item,
                    failedTitle = (if trim (title item) \<noteq> [] then trim (title item)
                                   else unknownTitle),
                    failedError = failureMessage (fetch 1) \<rparr>],
               workers := (workers p)[w := Idle]\<rparr>)"
proof (intro impI conjI)
  show "length (snd (fetchArticleContentWithRetry fetch abortedAt r baseDelay)) \<le> r"
    using retryLoop_delays [of fetch abortedAt r baseDelay 0 None "[]"]
    by (simp add: fetchArticleContentWithRetry_def)
next
  assume na: "\<forall>k. \<not> abortedAt k"
    and "n \<le> r \<and> (\<forall>i<n. looksFailed (fetch i)) \<and> \<not> looksFailed (fetch n)"
  then show "fetchArticleContentWithRetry fetch abortedAt r baseDelay
          = (Inr (fetch n), map (\<lambda>i. baseDelay * 2 ^ i) [0..<n])"
    using retryLoop_success [of 0 n r fetch abortedAt baseDelay None "[]"]
    by (simp add: fetchArticleContentWithRetry_def)
next
  assume na: "\<forall>k. \<not> abortedAt k"
    and h: "2 \<le> r \<and> looksFailed (fetch 0) \<and> looksFailed (fetch 1) \<and> \<not> looksFailed (fetch 2)"
  have "\<forall>i. 0 \<le> i \<and> i < 2 \<longrightarrow> looksFailed (fetch i)"
    using h by (auto simp: less_Suc_eq numeral_2_eq_2)
  then show "fst (fetchArticleContentWithRetry fetch abortedAt r baseDelay) = Inr (fetch 2)"
    using retryLoop_success [of 0 2 r fetch abortedAt baseDelay None "[]"] na h
    by (simp add: fetchArticleContentWithRetry_def)
next
  assume na: "\<forall>k. \<not> abortedAt k" and "\<forall>i\<le>r. looksFailed (fetch i)"
  then show "fetchArticleContentWithRetry fetch abortedAt r baseDelay
          = (Inl (failureMessage (fetch r)), map (\<lambda>i. baseDelay * 2 ^ i) [0..<r])"
    using retryLoop_exhausted [of 0 r fetch abortedAt baseDelay None "[]"]
    by (simp add: fetchArticleContentWithRetry_def)
next
  assume "w < length (workers p) \<and> workers p ! w = Fetching item key \<and> \<not> aborted p
        \<and> (\<forall>i. looksFailed (fetch i))"
  then show "step h cfg p (FetchDone w fetch)
          = p\<lparr>failures := failures p @
                 [\<lparr> failedLink = link item,
                    failedTitle = (if trim (title item) \<noteq> [] then trim (title item)
                                   else unknownTitle),
                    failedError = failureMessage (fetch 1) \<rparr>],
               workers := (workers p)[w := Idle]\<rparr>"
    using fetchDone_all_failed by blast
qed


lemma not_sublist_longer: "length ys < length xs \<Longrightarrow> \<not> sublist xs ys"
  using sublist_length_le by fastforce

theorem fetch_retry_backoff_witness:
  "fetchArticleContentWithRetry
     (\<lambda>k. if k < 2 then \<lparr> fetchedTitle = accessFailed, fetchedContent = [] \<rparr>
          else \<lparr> fetchedTitle = ascii ''Title'', fetchedContent = ascii ''ok'' \<rparr>)
     (\<lambda>k. False) 2 800
     = (Inr \<lparr> fetchedTitle = ascii ''Title'', fetchedContent = ascii ''ok'' \<rparr>, [800, 1600])
   \<and> fetchArticleContentWithRetry (\<lambda>k. \<lparr> fetchedTitle = accessFailed, fetchedContent = [] \<rparr>)
        (\<lambda>k. False) 1 800
     = (Inl accessFailed, [800])
   \<and> failures (step exampleHost exampleConfig
        (crawler.extend newCrawler
           \<lparr> idx = 1, workers = [Fetching (exampleArticle ''A title'' ''u'') (ascii ''u'')],
             items = [exampleArticle ''A title'' ''u''] \<rparr>)
        (FetchDone 0 (\<lambda>k. \<lparr> fetchedTitle = accessFailed, fetchedContent = [] \<rparr>)))
     = [\<lparr> failedLink = ascii ''u'', failedTitle = ascii ''A title'', failedError = accessFailed \<rparr>]"
proof -
  let ?bad = "\<lparr> fetchedTitle = accessFailed, fetchedContent = [] \<rparr>"
  let ?good = "\<lparr> fetchedTitle = ascii ''Title'', fetchedContent = ascii ''ok'' \<rparr>"
  let ?f = "\<lambda>k::nat. if k < 2 then ?bad else ?good"
  let ?p = "crawler.extend newCrawler
           \<lparr> idx = 1, workers = [Fetching (exampleArticle ''A title'' ''u'') (ascii ''u'')],
             items = [exampleArticle ''A title'' ''u''] \<rparr>"
  have bad: "looksFailed ?bad" by (simp add: looksFailed_def)
  have good: "\<not> looksFailed ?good"
    by (simp add: looksFailed_def ascii_def accessFailed_def cannotGetContent_def
        extractContentFailed_def not_sublist_longer)
  have na: "\<forall>k::nat. \<not> (\<lambda>k. False) k" by simp
  have h1: "(2::nat) \<le> 2 \<and> (\<forall>i<2. looksFailed (?f i)) \<and> \<not> looksFailed (?f 2)"
    using bad good by simp
  have a: "fetchArticleContentWithRetry ?f (\<lambda>k. False) 2 800
      = (Inr (?f 2), map (\<lambda>i. 800 * 2 ^ i) [0..<2])"
    using fetch_retry_backoff [of "\<lambda>k. False" ?f 2 800 2] na h1 by blast
  have h2: "\<forall>i\<le>1. looksFailed ((\<lambda>k::nat. ?bad) i)" using bad by simp
  have b: "fetchArticleContentWithRetry (\<lambda>k. ?bad) (\<lambda>k. False) 1 800
      = (Inl (failureMessage ((\<lambda>k::nat. ?bad) 1)), map (\<lambda>i. 800 * 2 ^ i) [0..<1])"
    using fetch_retry_backoff [of "\<lambda>k. False" "\<lambda>k. ?bad" 1 800] na h2 by blast
  have h3: "0 < length (workers ?p) \<and> workers ?p ! 0
        = Fetching (exampleArticle ''A title'' ''u'') (ascii ''u'') \<and> \<not> aborted ?p
        \<and> (\<forall>i. looksFailed ((\<lambda>k::nat. ?bad) i))"
    using bad by (simp add: crawler.defs pool.defs newCrawler_def)
  have c: "step exampleHost exampleConfig ?p (FetchDone 0 (\<lambda>k. ?bad))
      = ?p\<lparr>failures := failures ?p @
                 [\<lparr> failedLink = link (exampleArticle ''A title'' ''u''),
                    failedTitle = (if trim (title (exampleArticle ''A title'' ''u'')) \<noteq> []
                                   then trim (title (exampleArticle ''A title'' ''u''))
                                   else unknownTitle),
                    failedError = failureMessage ((\<lambda>k::nat. ?bad) 1) \<rparr>],
               workers := (workers ?p)[0 := Idle]\<rparr>"
    using fetch_retry_backoff [of "\<lambda>k. False" "\<lambda>k. ?bad" 1 800 0 0 ?p
        "exampleArticle ''A title'' ''u''" "ascii ''u''" exampleHost exampleConfig] na h3
    by blast
  have trimA: "trim (ascii ''A title'') = ascii ''A title''"
    by (simp add: trim_def ascii_def isJsSpace_def)
  show ?thesis
    unfolding c
    using a b trimA
    by (simp add: failureMessage_def accessFailed_def exampleArticle_def crawler.defs pool.defs
        newCrawler_def numeral_2_eq_2 ascii_def)
qed

section \<open>Properties of the page loop\<close>

lemma pageLoop_requests_range:
  "pageLoop h cfg schedule c ps st = (st', reqs) \<Longrightarrow>
   (Extract m \<in> set reqs \<or> NextPage m \<in> set reqs) \<Longrightarrow> c \<le> m \<and> m < c + length ps"
proof (induction ps arbitrary: c st st' reqs)
  case Nil
  then show ?case by simp
next
  case (Cons pg rest)
  let ?st1 = "crawler.truncate (runPool h cfg (filteredArticles h cfg pg) (schedule c) st)"
  show ?case
  proof (cases "c \<le> maxPages cfg \<and> \<not> aborted st \<and> pg \<noteq> []
      \<and> \<not> (hasOlderArticles h cfg pg \<and> c > 3) \<and> \<not> aborted ?st1 \<and> rest \<noteq> []")
    case True
    obtain st2 reqs2 where rec: "pageLoop h cfg schedule (c + 1) rest ?st1 = (st2, reqs2)"
      by (cases "pageLoop h cfg schedule (c + 1) rest ?st1")
    with True Cons.prems(1) have reqs: "reqs = Extract c # NextPage c # reqs2"
      by (auto simp: Let_def)
    from Cons.prems(2) reqs consider "m = c" | "Extract m \<in> set reqs2 \<or> NextPage m \<in> set reqs2"
      by auto
    then show ?thesis
    proof cases
      case 1
      then show ?thesis by simp
    next
      case 2
      from Cons.IH [OF rec 2] show ?thesis by simp
    qed
  next
    case False
    with Cons.prems show ?thesis
      by (auto simp: Let_def split: if_splits)
  qed
qed

lemma pageLoop_cutoff:
  "pageLoop h cfg schedule c ps st = (st', reqs) \<Longrightarrow> Extract n \<in> set reqs \<Longrightarrow> 3 < n \<Longrightarrow>
   hasOlderArticles h cfg (ps ! (n - c)) \<Longrightarrow>
   NextPage n \<notin> set reqs \<and> (\<forall>m>n. Extract m \<notin> set reqs)"
proof (induction ps arbitrary: c st st' reqs)
  case Nil
  then show ?case by simp
next
  case (Cons pg rest)
  let ?st1 = "crawler.truncate (runPool h cfg (filteredArticles h cfg pg) (schedule c) st)"
  show ?case
  proof (cases "c \<le> maxPages cfg \<and> \<not> aborted st \<and> pg \<noteq> []
      \<and> \<not> (hasOlderArticles h cfg pg \<and> c > 3) \<and> \<not> aborted ?st1 \<and> rest \<noteq> []")
    case True
    obtain st2 reqs2 where rec: "pageLoop h cfg schedule (c + 1) rest ?st1 = (st2, reqs2)"
      by (cases "pageLoop h cfg schedule (c + 1) rest ?st1")
    with True Cons.prems(1) have reqs: "reqs = Extract c # NextPage c # reqs2"
      by (auto simp: Let_def)
    have nc: "n \<noteq> c" using True Cons.prems(3,4) by auto
    with Cons.prems(2) reqs have in2: "Extract n \<in> set reqs2" by auto
    from pageLoop_requests_range [OF rec] in2 have gt: "c + 1 \<le> n" by blast
    then have "(pg # rest) ! (n - c) = rest ! (n - (c + 1))"
      by (metis Suc_diff_le Suc_eq_plus1 diff_Suc_Suc nth_Cons_Suc)
    with Cons.prems(4) have "hasOlderArticles h cfg (rest ! (n - (c + 1)))" by simp
    from Cons.IH [OF rec in2 Cons.prems(3) this] reqs gt show ?thesis by auto
  next
    case False
    with Cons.prems show ?thesis
      by (auto simp: Let_def split: if_splits)
  qed
qed


text \<open>
  Claim C6, amended. The loop stops on the condition \<open>hasOlderArticles && currentPage > 3\<close>:
  when a lower bound is configured (\<open>startDate\<close>, else \<open>targetDate\<close>), the listing of a page
  numbered above 3 is read, and that page has an entry with a timestamp at or before the
  bound, then the next page is not asked for and no later page is read. On page 3 itself
  the loop goes on (counterexample below).
\<close>

theorem pagination_cutoff:
  "scrapeArticles h cfg schedule listing st = (st', reqs) \<Longrightarrow> Extract n \<in> set reqs \<Longrightarrow> 3 < n \<Longrightarrow>
   thresholdDate cfg = Some bound \<Longrightarrow> a \<in> set (listing ! (n - 1)) \<Longrightarrow> publishTime a \<noteq> [] \<Longrightarrow>
   date_le (parseDate h (publishTime a)) bound \<Longrightarrow>
   NextPage n \<notin> set reqs \<and> (\<forall>m>n. Extract m \<notin> set reqs)"
proof -
  assume run: "scrapeArticles h cfg schedule listing st = (st', reqs)"
    and n: "Extract n \<in> set reqs" "3 < n"
    and old: "thresholdDate cfg = Some bound" "a \<in> set (listing ! (n - 1))" "publishTime a \<noteq> []"
      "date_le (parseDate h (publishTime a)) bound"
  from old have "hasOlderArticles h cfg (listing ! (n - 1))"
    by (auto simp: hasOlderArticles_def list_ex_iff)
  with run n show ?thesis
    unfolding scrapeArticles_def by (intro pageLoop_cutoff) auto
qed

lemma runPool_nothing_to_do:
  "\<not> aborted st \<Longrightarrow> crawler.truncate (runPool h cfg [] [Pick 0] st) = st"
  by (simp add: runPool_def startPool_def step_def pick_def crawler.defs pool.defs)

lemma oldListing_run:
  "scrapeArticles datedHost thresholdConfig (\<lambda>n. [Pick 0]) oldListing newCrawler
   = (newCrawler, [Extract 1, NextPage 1, Extract 2, NextPage 2, Extract 3, NextPage 3, Extract 4])"
proof -
  have thr: "thresholdDate thresholdConfig = Some (Valid 1740787200000)"
    by (simp add: thresholdConfig_def constructor_def optDate_def thresholdDate_def datedHost_def
        exampleHost_def exampleParse_def ascii_def)
  have cfg: "startDate thresholdConfig = None" "endDate thresholdConfig = None"
    "targetDate thresholdConfig = Some (Valid 1740787200000)" "maxPages thresholdConfig = 10"
    by (simp_all add: thresholdConfig_def constructor_def optDate_def datedHost_def
        exampleHost_def exampleParse_def ascii_def)
  let ?a = "datedArticle ''Old entry'' ''https://xz.aliyun.com/news/1'' ''2025-01-01''"
  have pt: "publishTime ?a = ascii ''2025-01-01''" "parseDate datedHost (ascii ''2025-01-01'') = Valid 1735689600000"
    "ascii ''2025-01-01'' \<noteq> []"
    by (simp_all add: datedArticle_def exampleArticle_def datedHost_def exampleHost_def
        exampleParse_def ascii_def)
  have filt: "filteredArticles datedHost thresholdConfig [?a] = []"
    by (simp add: filteredArticles_def keepArticle_def cfg pt Let_def)
  have older: "hasOlderArticles datedHost thresholdConfig [?a]"
    by (simp add: hasOlderArticles_def thr pt)
  have na: "\<not> aborted newCrawler" by (simp add: newCrawler_def)
  have l: "oldListing = [[?a], [?a], [?a], [?a], [?a]]"
    by (simp add: oldListing_def eval_nat_numeral)
  show ?thesis
    unfolding scrapeArticles_def l
    by (simp add: filt older na runPool_nothing_to_do cfg Let_def del: One_nat_def)
qed

text \<open>
  On the third page, with three pages crawled and an entry at or before the bound, the
  fourth page is asked for and read.
\<close>

theorem pagination_cutoff_counterexample:
  "thresholdDate thresholdConfig = Some (Valid 1740787200000)
   \<and> publishTime (hd (oldListing ! 2)) = ascii ''2025-01-01''
   \<and> date_le (parseDate datedHost (ascii ''2025-01-01'')) (Valid 1740787200000)
   \<and> Extract 3 \<in> set (snd (scrapeArticles datedHost thresholdConfig (\<lambda>n. [Pick 0]) oldListing newCrawler))
   \<and> NextPage 3 \<in> set (snd (scrapeArticles datedHost thresholdConfig (\<lambda>n. [Pick 0]) oldListing newCrawler))
   \<and> Extract 4 \<in> set (snd (scrapeArticles datedHost thresholdConfig (\<lambda>n. [Pick 0]) oldListing newCrawler))"
  unfolding oldListing_run
  by (simp add: thresholdConfig_def constructor_def optDate_def thresholdDate_def datedHost_def
        exampleHost_def exampleParse_def ascii_def oldListing_def eval_nat_numeral
        datedArticle_def exampleArticle_def)

theorem pagination_cutoff_witness:
  "Extract 4 \<in> set (snd (scrapeArticles datedHost thresholdConfig (\<lambda>n. [Pick 0]) oldListing newCrawler))
   \<and> NextPage 4 \<notin> set (snd (scrapeArticles datedHost thresholdConfig (\<lambda>n. [Pick 0]) oldListing newCrawler))
   \<and> Extract 5 \<notin> set (snd (scrapeArticles datedHost thresholdConfig (\<lambda>n. [Pick 0]) oldListing newCrawler))"
proof -
  let ?a = "datedArticle ''Old entry'' ''https://xz.aliyun.com/news/1'' ''2025-01-01''"
  let ?reqs = "[Extract 1, NextPage 1, Extract 2, NextPage 2, Extract 3, NextPage 3, Extract 4]"
  have thr: "thresholdDate thresholdConfig = Some (Valid 1740787200000)"
    by (simp add: thresholdConfig_def constructor_def optDate_def thresholdDate_def datedHost_def
        exampleHost_def exampleParse_def ascii_def)
  have mem: "?a \<in> set (oldListing ! (4 - 1))"
    by (simp add: oldListing_def eval_nat_numeral)
  have pt: "publishTime ?a \<noteq> []"
    "date_le (parseDate datedHost (publishTime ?a)) (Valid 1740787200000)"
    by (simp_all add: datedArticle_def exampleArticle_def datedHost_def exampleHost_def
        exampleParse_def ascii_def)
  have "NextPage 4 \<notin> set ?reqs \<and> (\<forall>m>4. Extract m \<notin> set ?reqs)"
    by (rule pagination_cutoff [OF oldListing_run _ _ thr mem pt]) simp_all
  then show ?thesis unfolding oldListing_run by simp
qed

section \<open>Properties of deduplication\<close>

lemma mset_insertSorted: "mset (insertSorted h x ys) = add_mset x (mset ys)"
  by (induction ys) auto

lemma mset_foldl_insertSorted:
  "mset (foldl (\<lambda>acc x. insertSorted h x acc) acc xs) = mset acc + mset xs"
  by (induction xs arbitrary: acc) (auto simp: mset_insertSorted)

lemma mset_sortByPublishTime: "mset (sortByPublishTime h xs) = mset xs"
  by (simp add: sortByPublishTime_def mset_foldl_insertSorted)

lemma dedupOk_perm:
  assumes "mset (articles st') = mset (articles st)" "seenKeys st' = seenKeys st"
  shows "dedupOk cfg st' = dedupOk cfg st"
proof -
  have "length (articles st') = length (articles st)"
    using assms(1) by (metis size_mset)
  moreover have "mset (map identityKey (filter hasLink (articles st')))
      = mset (map identityKey (filter hasLink (articles st)))"
    using assms(1) by (metis mset_filter mset_map)
  moreover have "mset (map identityKey (articles st')) = mset (map identityKey (articles st))"
    using assms(1) by (metis mset_map)
  ultimately show ?thesis using assms(2) by (simp add: dedupOk_def)
qed

lemma maybeUpdateSummaryFile_fields:
  "seenKeys (maybeUpdateSummaryFile h st) = seenKeys st"
  "mset (articles (maybeUpdateSummaryFile h st)) = mset (articles st)"
  "aborted (maybeUpdateSummaryFile h st) = aborted st"
  "failures (maybeUpdateSummaryFile h st) = failures st"
  "disk (maybeUpdateSummaryFile h st) = disk st"
  by (simp_all add: maybeUpdateSummaryFile_def updateSummaryFile_def Let_def
      mset_sortByPublishTime)

lemma maybeUpdateSummaryFile_pool:
  "workers (maybeUpdateSummaryFile h p) = workers p"
  "idx (maybeUpdateSummaryFile h p) = idx p"
  "items (maybeUpdateSummaryFile h p) = items p"
  by (simp_all add: maybeUpdateSummaryFile_def updateSummaryFile_def Let_def)

lemma dedupOk_maybeUpdate: "dedupOk cfg (maybeUpdateSummaryFile h st) = dedupOk cfg st"
  by (rule dedupOk_perm) (simp_all add: maybeUpdateSummaryFile_fields)

lemma trim_Nil: "trim [] = []"
  by (simp add: trim_def)

lemma identityKey_hasLink: "hasLink a \<Longrightarrow> identityKey a = trim (link a)"
  using trim_Nil by (auto simp: identityKey_def hasLink_def)

lemma identityKey_refineTitle:
  "hasLink item \<Longrightarrow> identityKey (refineTitle item res) = identityKey item"
  "hasLink (refineTitle item res) = hasLink item"
  using trim_Nil by (auto simp: identityKey_def refineTitle_def hasLink_def Let_def)


lemma list_all_update:
  "list_all P xs \<Longrightarrow> P x \<Longrightarrow> list_all P (xs[i := x])"
  by (auto simp: list_all_iff dest: set_update_subset_insert [THEN subsetD])

lemma list_all_nth: "list_all P xs \<Longrightarrow> i < length xs \<Longrightarrow> P (xs ! i)"
  by (simp add: list_all_iff)

lemma phaseOk_seen_mono:
  "fetchFullContent cfg \<Longrightarrow> phaseOk cfg seen ph \<Longrightarrow> phaseOk cfg seen' ph"
  by (cases ph) auto

lemma poolOk_abort: "poolOk cfg p \<Longrightarrow> poolOk cfg (p\<lparr>aborted := True\<rparr>)"
  by (simp add: poolOk_def dedupOk_def)

lemma poolOk_pick:
  assumes "poolOk cfg p" "w < length (workers p)" "workers p ! w = Idle"
  shows "poolOk cfg (pick h cfg w p)"
proof (cases "idx p < length (items p) \<and> \<not> aborted p")
  case False
  with assms show ?thesis
    by (auto simp: pick_def poolOk_def dedupOk_def intro: list_all_update)
next
  case True
  let ?item = "items p ! idx p"
  show ?thesis
  proof (cases "identityKey ?item \<in> set (seenKeys p)")
    case True
    with \<open>idx p < length (items p) \<and> \<not> aborted p\<close> assms show ?thesis
      by (simp add: pick_def poolOk_def dedupOk_def Let_def)
  next
    case False
    show ?thesis
    proof (cases "fetchFullContent cfg")
      case True
      with False \<open>idx p < length (items p) \<and> \<not> aborted p\<close> assms show ?thesis
        by (auto simp: pick_def poolOk_def dedupOk_def Let_def intro!: list_all_update)
    next
      case nf: False
      obtain fs fn where sv: "saveArticleImmediately h (disk p) ?item (length (articles p) + 1) = (fs, fn)"
        by (cases "saveArticleImmediately h (disk p) ?item (length (articles p) + 1)")
      with nf False \<open>idx p < length (items p) \<and> \<not> aborted p\<close> assms show ?thesis
        by (auto simp: pick_def poolOk_def dedupOk_def Let_def intro!: list_all_update)
    qed
  qed
qed


lemma poolOk_fetchDone:
  assumes ok: "poolOk cfg p" and w: "w < length (workers p)"
    and ph: "workers p ! w = Fetching item key"
  shows "poolOk cfg (fetchDone h w item key fetch p)"
proof -
  from ok w ph have pk: "phaseOk cfg (seenKeys p) (Fetching item key)"
    unfolding poolOk_def by (metis list_all_nth)
  then have full: "fetchFullContent cfg" and key: "hasLink item \<Longrightarrow> key = identityKey item"
    by auto
  show ?thesis
  proof (cases "fst (fetchArticleContentWithRetry fetch (\<lambda>_. aborted p) 1 800)")
    case (Inl message)
    with ok full show ?thesis
      by (auto simp: fetchDone_def poolOk_def dedupOk_def intro!: list_all_update)
  next
    case (Inr articleData)
    obtain fs fn where sv: "saveArticleImmediately h (disk p) (refineTitle item articleData)
        (length (articles p) + 1) = (fs, fn)"
      by (cases "saveArticleImmediately h (disk p) (refineTitle item articleData)
        (length (articles p) + 1)")
    have "phaseOk cfg (seenKeys p) (Saved (refineTitle item articleData) key fn)"
      using full key by (simp add: identityKey_refineTitle)
    with ok full Inr sv show ?thesis
      by (auto simp: fetchDone_def poolOk_def dedupOk_def Let_def intro!: list_all_update)
  qed
qed

lemma dedupOk_append:
  assumes ok: "dedupOk cfg st" and new: "key \<notin> set (seenKeys st)"
    and key: "hasLink item \<Longrightarrow> key = identityKey item"
    and nf: "fetchFullContent cfg \<or> key = identityKey item"
  shows "dedupOk cfg (st\<lparr>seenKeys := seenKeys st @ [key], articles := articles st @ [item]\<rparr>)"
proof -
  have sub: "mset (map identityKey (filter hasLink (articles st @ [item])))
      \<subseteq># mset (seenKeys st @ [key])"
  proof (cases "hasLink item")
    case True
    with ok key show ?thesis by (simp add: dedupOk_def)
  next
    case False
    from ok have "mset (map identityKey (filter hasLink (articles st))) \<subseteq># mset (seenKeys st)"
      by (simp add: dedupOk_def)
    then have "mset (map identityKey (filter hasLink (articles st)))
        \<subseteq># add_mset key (mset (seenKeys st))"
      by (meson mset_subset_eq_add_mset_cancel subset_mset.order_trans multi_psub_of_add_self
          subset_mset.less_imp_le)
    with False show ?thesis by simp
  qed
  from ok new nf sub show ?thesis
    by (auto simp: dedupOk_def)
qed


lemma poolOk_maybeUpdate: "poolOk cfg (maybeUpdateSummaryFile h p) = poolOk cfg p"
  by (simp add: poolOk_def dedupOk_maybeUpdate maybeUpdateSummaryFile_pool
      maybeUpdateSummaryFile_fields)

lemma poolOk_resume:
  assumes ok: "poolOk cfg p" and w: "w < length (workers p)"
    and ph: "workers p ! w = Saved item key savedFileName"
  shows "poolOk cfg (resume h cfg w item key savedFileName p)"
proof -
  let ?p0 = "p\<lparr>workers := (workers p)[w := Idle]\<rparr>"
  from ok w ph have pk: "phaseOk cfg (seenKeys p) (Saved item key savedFileName)"
    unfolding poolOk_def by (metis list_all_nth)
  then have key: "hasLink item \<Longrightarrow> key = identityKey item"
    and nf: "fetchFullContent cfg \<or> (key = identityKey item \<and> key \<notin> set (seenKeys p))"
    by (auto split: if_splits)
  have ok0: "poolOk cfg ?p0"
    using ok by (auto simp: poolOk_def dedupOk_def intro!: list_all_update)
  have app: "poolOk cfg (?p0\<lparr>seenKeys := seenKeys ?p0 @ [key], articles := articles ?p0 @ [item]\<rparr>)"
    if new: "key \<notin> set (seenKeys p)"
  proof -
    have d: "dedupOk cfg (?p0\<lparr>seenKeys := seenKeys ?p0 @ [key], articles := articles ?p0 @ [item]\<rparr>)"
      using ok0 new key nf by (intro dedupOk_append) (auto simp: poolOk_def)
    have ws: "list_all (phaseOk cfg (seenKeys p @ [key])) ((workers p)[w := Idle])"
    proof (cases "fetchFullContent cfg")
      case True
      from ok0 have "list_all (phaseOk cfg (seenKeys p)) ((workers p)[w := Idle])"
        by (simp add: poolOk_def)
      then show ?thesis
        using True by (auto simp: list_all_iff intro: phaseOk_seen_mono)
    next
      case False
      with ok have "length (workers p) \<le> 1" by (simp add: poolOk_def)
      with w have "(workers p)[w := Idle] = [Idle]"
        by (cases "workers p") auto
      then show ?thesis by simp
    qed
    from d ws ok0 show ?thesis by (simp add: poolOk_def)
  qed
  show ?thesis
  proof (cases "savedFileName \<noteq> None \<and> \<not> aborted p")
    case False
    with ok0 show ?thesis by (auto simp: resume_def Let_def)
  next
    case True
    show ?thesis
    proof (cases "key \<in> set (seenKeys p)")
      case seen: True
      with nf have "fetchFullContent cfg" by auto
      with True seen ok0 show ?thesis
        by (simp add: resume_def Let_def poolOk_maybeUpdate)
    next
      case False
      with True app show ?thesis
        by (simp add: resume_def Let_def poolOk_maybeUpdate)
    qed
  qed
qed

lemma poolOk_step: "poolOk cfg p \<Longrightarrow> poolOk cfg (step h cfg p ev)"
  by (cases ev)
    (auto simp: step_def poolOk_abort poolOk_pick poolOk_fetchDone poolOk_resume
      split: phase.splits)

lemma poolOk_foldl: "poolOk cfg p \<Longrightarrow> poolOk cfg (foldl (step h cfg) p evs)"
  by (induction evs arbitrary: p) (auto simp: poolOk_step)

lemma poolOk_startPool: "dedupOk cfg st \<Longrightarrow> poolOk cfg (startPool cfg filtered st)"
  by (simp add: poolOk_def startPool_def dedupOk_def crawler.defs pool.defs list_all_iff)

lemma dedupOk_truncate: "dedupOk cfg (crawler.truncate p) = dedupOk cfg p"
  by (simp add: dedupOk_def crawler.defs)

lemma dedupOk_runPool:
  "dedupOk cfg st \<Longrightarrow> dedupOk cfg (crawler.truncate (runPool h cfg filtered schedule st))"
  using poolOk_foldl [OF poolOk_startPool]
  by (simp add: dedupOk_truncate runPool_def poolOk_def)

lemma dedupOk_pageLoop:
  "dedupOk cfg st \<Longrightarrow> pageLoop h cfg schedule c ps st = (st', reqs) \<Longrightarrow> dedupOk cfg st'"
proof (induction ps arbitrary: c st st' reqs)
  case Nil
  then show ?case by simp
next
  case (Cons pg rest)
  let ?st1 = "crawler.truncate (runPool h cfg (filteredArticles h cfg pg) (schedule c) st)"
  have ok1: "dedupOk cfg ?st1" using Cons.prems(1) by (rule dedupOk_runPool)
  show ?case
  proof (cases "c \<le> maxPages cfg \<and> \<not> aborted st \<and> pg \<noteq> []
      \<and> \<not> (hasOlderArticles h cfg pg \<and> c > 3) \<and> \<not> aborted ?st1 \<and> rest \<noteq> []")
    case True
    obtain st2 reqs2 where rec: "pageLoop h cfg schedule (c + 1) rest ?st1 = (st2, reqs2)"
      by (cases "pageLoop h cfg schedule (c + 1) rest ?st1")
    with True Cons.prems(2) have "st' = st2" by (auto simp: Let_def)
    with Cons.IH [OF ok1 rec] show ?thesis by simp
  next
    case False
    with Cons.prems ok1 show ?thesis
      by (auto simp: Let_def split: if_splits)
  qed
qed

lemma dedupOk_newCrawler: "dedupOk cfg newCrawler"
  by (simp add: dedupOk_def newCrawler_def)


lemma goodFetch_ok: "\<not> looksFailed (goodFetch k)"
  by (simp add: goodFetch_def looksFailed_def ascii_def accessFailed_def cannotGetContent_def
        extractContentFailed_def not_sublist_longer)

lemma retry_goodFetch:
  "fetchArticleContentWithRetry goodFetch (\<lambda>_. False) 1 800 = (Inr (goodFetch 0), [])"
  unfolding fetchArticleContentWithRetry_def
  by (subst retryLoop.simps) (simp add: goodFetch_ok)

lemma trim_ascii_examples:
  "trim (ascii ''https://xz.aliyun.com/news/1'') = ascii ''https://xz.aliyun.com/news/1''"
  "trim (ascii ''Article A'') = ascii ''Article A''"
  by (simp_all add: trim_def ascii_def isJsSpace_def)

lemma key_example:
  "identityKey (exampleArticle ''Article A'' ''https://xz.aliyun.com/news/1'')
     = ascii ''https://xz.aliyun.com/news/1''"
  by (simp add: identityKey_def exampleArticle_def trim_ascii_examples) (simp add: ascii_def)

lemma fileName_example:
  "generateFileName exampleHost (refineTitle (exampleArticle ''Article A'' ''https://xz.aliyun.com/news/1'') (goodFetch 0)) n
     = ascii ''Article_A.md''"
  by (simp add: generateFileName_def refineTitle_def goodFetch_def exampleArticle_def
      trim_ascii_examples Let_def unknownTitle_def accessFailed_def)
     (simp add: ascii_def removeUnsafe_def foldBrackets_def isJsSpace_def stripEdgeUnderscores_def)


lemma filtered_example:
  "filteredArticles exampleHost twoPages [exampleArticle t l] = [exampleArticle t l]"
  by (simp add: filteredArticles_def keepArticle_def twoPages_def exampleConfig_def
      exampleArticle_def ascii_def Let_def)


lemma page1_start: "startPool twoPages [exampleArticle ''Article A'' ''https://xz.aliyun.com/news/1''] newCrawler
  = \<lparr> articles = [], failures = [], seenKeys = [], summaryUpdateCounter = 0, aborted = False,
       disk = \<lparr> papersDirExists = False, files = Map.empty \<rparr>, realtimeSummary = None,
       idx = 0, workers = [Idle], items = [exampleArticle ''Article A'' ''https://xz.aliyun.com/news/1''] \<rparr>"
  by (simp add: startPool_def twoPages_def exampleConfig_def newCrawler_def crawler.defs pool.defs)

lemma page1_picked: "step exampleHost twoPages 
     \<lparr> articles = [], failures = [], seenKeys = [], summaryUpdateCounter = 0, aborted = False,
       disk = \<lparr> papersDirExists = False, files = Map.empty \<rparr>, realtimeSummary = None,
       idx = 0, workers = [Idle], items = [exampleArticle ''Article A'' ''https://xz.aliyun.com/news/1''] \<rparr>
     (Pick 0)
  = \<lparr> articles = [], failures = [], seenKeys = [], summaryUpdateCounter = 0, aborted = False,
       disk = \<lparr> papersDirExists = False, files = Map.empty \<rparr>, realtimeSummary = None,
       idx = 1, workers = [Fetching (exampleArticle ''Article A'' ''https://xz.aliyun.com/news/1'')
           (ascii ''https://xz.aliyun.com/news/1'')],
       items = [exampleArticle ''Article A'' ''https://xz.aliyun.com/news/1''] \<rparr>"
  by (simp add: step_def pick_def key_example twoPages_def exampleConfig_def Let_def)


lemma save_example:
  "saveArticleImmediately exampleHost \<lparr> papersDirExists = False, files = Map.empty \<rparr>
     (refineTitle (exampleArticle ''Article A'' ''https://xz.aliyun.com/news/1'') (goodFetch 0)) n
   = (\<lparr> papersDirExists = True, files = [ascii ''Article_A.md'' \<mapsto> ascii ''body''] \<rparr>,
      Some (ascii ''Article_A.md''))"
proof -
  have "generateSingleArticleMarkdown exampleHost
      (refineTitle (exampleArticle ''Article A'' ''https://xz.aliyun.com/news/1'') (goodFetch 0))
      = ascii ''body''"
    by (simp add: exampleHost_def refineTitle_def goodFetch_def Let_def)
  moreover have "\<not> writeThrows exampleHost (ascii ''Article_A.md'')"
    by (simp add: exampleHost_def)
  ultimately show ?thesis
    by (simp add: saveArticleImmediately_def fileName_example Let_def)
qed

lemma page1_fetched: "step exampleHost twoPages 
     \<lparr> articles = [], failures = [], seenKeys = [], summaryUpdateCounter = 0, aborted = False,
       disk = \<lparr> papersDirExists = False, files = Map.empty \<rparr>, realtimeSummary = None,
       idx = 1, workers = [Fetching (exampleArticle ''Article A'' ''https://xz.aliyun.com/news/1'')
           (ascii ''https://xz.aliyun.com/news/1'')],
       items = [exampleArticle ''Article A'' ''https://xz.aliyun.com/news/1''] \<rparr>
     (FetchDone 0 goodFetch)
  = \<lparr> articles = [], failures = [], seenKeys = [], summaryUpdateCounter = 0, aborted = False,
       disk = \<lparr> papersDirExists = True, files = [ascii ''Article_A.md'' \<mapsto> ascii ''body''] \<rparr>,
       realtimeSummary = None,
       idx = 1, workers = [Saved (refineTitle (exampleArticle ''Article A'' ''https://xz.aliyun.com/news/1'') (goodFetch 0))
           (ascii ''https://xz.aliyun.com/news/1'') (Some (ascii ''Article_A.md''))],
       items = [exampleArticle ''Article A'' ''https://xz.aliyun.com/news/1''] \<rparr>"
  by (simp add: step_def fetchDone_def retry_goodFetch save_example del: One_nat_def)

lemma page1_resumed: "step exampleHost twoPages 
     \<lparr> articles = [], failures = [], seenKeys = [], summaryUpdateCounter = 0, aborted = False,
       disk = \<lparr> papersDirExists = True, files = [ascii ''Article_A.md'' \<mapsto> ascii ''body''] \<rparr>,
       realtimeSummary = None,
       idx = 1, workers = [Saved (refineTitle (exampleArticle ''Article A'' ''https://xz.aliyun.com/news/1'') (goodFetch 0))
           (ascii ''https://xz.aliyun.com/news/1'') (Some (ascii ''Article_A.md''))],
       items = [exampleArticle ''Article A'' ''https://xz.aliyun.com/news/1''] \<rparr>
     (Resume 0)
  = \<lparr> articles = [refineTitle (exampleArticle ''Article A'' ''https://xz.aliyun.com/news/1'') (goodFetch 0)],
       failures = [], seenKeys = [ascii ''https://xz.aliyun.com/news/1''],
       summaryUpdateCounter = 1, aborted = False,
       disk = \<lparr> papersDirExists = True, files = [ascii ''Article_A.md'' \<mapsto> ascii ''body''] \<rparr>,
       realtimeSummary = None,
       idx = 1, workers = [Idle],
       items = [exampleArticle ''Article A'' ''https://xz.aliyun.com/news/1''] \<rparr>"
  by (simp add: step_def resume_def maybeUpdateSummaryFile_def twoPages_def exampleConfig_def Let_def)


lemma page1_finished: "crawler.truncate (step exampleHost twoPages 
     \<lparr> articles = [refineTitle (exampleArticle ''Article A'' ''https://xz.aliyun.com/news/1'') (goodFetch 0)],
       failures = [], seenKeys = [ascii ''https://xz.aliyun.com/news/1''],
       summaryUpdateCounter = 1, aborted = False,
       disk = \<lparr> papersDirExists = True, files = [ascii ''Article_A.md'' \<mapsto> ascii ''body''] \<rparr>,
       realtimeSummary = None,
       idx = 1, workers = [Idle],
       items = [exampleArticle ''Article A'' ''https://xz.aliyun.com/news/1''] \<rparr>
     (Pick 0)) = crawledOnce"
  by (simp add: step_def pick_def crawledOnce_def crawler.defs)

lemma pool_page1:
  "crawler.truncate (runPool exampleHost twoPages
      [exampleArticle ''Article A'' ''https://xz.aliyun.com/news/1'']
      [Pick 0, FetchDone 0 goodFetch, Resume 0, Pick 0] newCrawler) = crawledOnce"
  by (simp add: runPool_def page1_start page1_picked page1_fetched page1_resumed page1_finished del: One_nat_def)

lemma pool_page2:
  "crawler.truncate (runPool exampleHost twoPages
      [exampleArticle ''Article A'' ''https://xz.aliyun.com/news/1'']
      [Pick 0, Pick 0] crawledOnce) = crawledOnce"
proof -
  let ?a = "exampleArticle ''Article A'' ''https://xz.aliyun.com/news/1''"
  let ?p = "\<lambda>i ws. \<lparr> articles = [refineTitle ?a (goodFetch 0)],
       failures = [], seenKeys = [ascii ''https://xz.aliyun.com/news/1''],
       summaryUpdateCounter = 1, aborted = False,
       disk = \<lparr> papersDirExists = True, files = [ascii ''Article_A.md'' \<mapsto> ascii ''body''] \<rparr>,
       realtimeSummary = None, idx = i, workers = ws, items = [?a] \<rparr>"
  have a: "startPool twoPages [?a] crawledOnce = ?p 0 [Idle]"
    by (simp add: startPool_def twoPages_def exampleConfig_def crawledOnce_def crawler.defs pool.defs)
  have b: "step exampleHost twoPages (?p 0 [Idle]) (Pick 0) = ?p 1 [Idle]"
    by (simp add: step_def pick_def key_example Let_def)
  have c: "crawler.truncate (step exampleHost twoPages (?p 1 [Idle]) (Pick 0)) = crawledOnce"
    by (simp add: step_def pick_def crawledOnce_def crawler.defs)
  show ?thesis by (simp add: runPool_def a b c del: One_nat_def)
qed

lemma repeated_run:
  "scrapeArticles exampleHost twoPages repeatedSchedule repeatedListing newCrawler
   = (crawledOnce, [Extract 1, NextPage 1, Extract 2, NextPage 2])"
proof -
  have m: "maxPages twoPages = 2" by (simp add: twoPages_def)
  have o: "\<not> hasOlderArticles exampleHost twoPages pg" for pg
    by (simp add: hasOlderArticles_def thresholdDate_def twoPages_def exampleConfig_def)
  have na: "\<not> aborted newCrawler" "\<not> aborted crawledOnce"
    by (simp_all add: newCrawler_def crawledOnce_def)
  have s: "repeatedSchedule 1 = [Pick 0, FetchDone 0 goodFetch, Resume 0, Pick 0]"
    "repeatedSchedule 2 = [Pick 0, Pick 0]"
    by (simp_all add: repeatedSchedule_def)
  show ?thesis
    unfolding scrapeArticles_def repeatedListing_def
    by (simp add: m o na s filtered_example pool_page1 pool_page2 Let_def del: One_nat_def)
qed


lemma distinct_of_mset_subset:
  assumes sub: "mset xs \<subseteq># mset ys" and d: "distinct ys"
  shows "distinct xs"
proof -
  have "count (mset xs) a = (if a \<in> set xs then 1 else 0)" for a
  proof (cases "a \<in> set xs")
    case True
    have "count (mset xs) a \<le> count (mset ys) a"
      using sub by (rule mset_subset_eq_count)
    also have "\<dots> \<le> 1" using d by (simp add: distinct_count_atmost_1)
    finally have "count (mset xs) a \<le> 1" .
    moreover have "count (mset xs) a \<noteq> 0" using True by (simp add: count_mset_0_iff)
    ultimately have "count (mset xs) a = 1" by arith
    then show ?thesis using True by simp
  next
    case False
    then show ?thesis by (simp add: count_mset_0_iff)
  qed
  then show ?thesis by (simp add: distinct_count_atmost_1)
qed

lemma pick_seen:
  assumes "w < length (workers p)" "workers p ! w = Idle" "idx p < length (items p)"
    "\<not> aborted p" "identityKey (items p ! idx p) \<in> set (seenKeys p)"
  shows "step h cfg p (Pick w) = p\<lparr>idx := idx p + 1\<rparr>"
  using assms by (simp add: step_def pick_def Let_def)

text \<open>
  Claim C3, amended. The identity key of an entry is its trimmed link when that is not
  empty, and otherwise its trimmed title, a vertical bar and its publish time. In every run,
  whatever the schedule of the workers: the keys seen are pairwise different and there is
  one record per key; the records with a link have pairwise different keys; when titles
  are not refined (no full content) all records have pairwise different keys; and a worker
  that takes an entry whose key was already seen only moves the cursor: nothing is fetched,
  saved, appended or counted.
\<close>

theorem dedup_invariant:
  "identityKey item =
     (if trim (link item) \<noteq> [] then trim (link item)
      else trim (title item) @ [124] @ publishTime item)
   \<and> (scrapeArticles h cfg schedule listing newCrawler = (st, reqs) \<longrightarrow>
        distinct (seenKeys st)
        \<and> length (articles st) = length (seenKeys st)
        \<and> distinct (map identityKey (filter hasLink (articles st)))
        \<and> (\<not> fetchFullContent cfg \<longrightarrow> distinct (map identityKey (articles st))))
   \<and> (w < length (workers p) \<and> workers p ! w = Idle \<and> idx p < length (items p)
        \<and> \<not> aborted p \<and> identityKey (items p ! idx p) \<in> set (seenKeys p) \<longrightarrow>
        step h cfg p (Pick w) = p\<lparr>idx := idx p + 1\<rparr>)"
proof (intro conjI impI)
  show "identityKey item =
     (if trim (link item) \<noteq> [] then trim (link item)
      else trim (title item) @ [124] @ publishTime item)"
    using trim_Nil by (auto simp: identityKey_def)
next
  assume run: "scrapeArticles h cfg schedule listing newCrawler = (st, reqs)"
  then have ok: "dedupOk cfg st"
    unfolding scrapeArticles_def using dedupOk_newCrawler dedupOk_pageLoop by blast
  then show "distinct (seenKeys st)" "length (articles st) = length (seenKeys st)"
    by (simp_all add: dedupOk_def)
  from ok show "distinct (map identityKey (filter hasLink (articles st)))"
    unfolding dedupOk_def using distinct_of_mset_subset by blast
  assume "\<not> fetchFullContent cfg"
  with ok have "mset (map identityKey (articles st)) = mset (seenKeys st)"
    and "distinct (seenKeys st)"
    by (simp_all add: dedupOk_def)
  then show "distinct (map identityKey (articles st))"
    by (metis distinct_of_mset_subset subset_mset.order_refl)
next
  assume "w < length (workers p) \<and> workers p ! w = Idle \<and> idx p < length (items p)
        \<and> \<not> aborted p \<and> identityKey (items p ! idx p) \<in> set (seenKeys p)"
  then show "step h cfg p (Pick w) = p\<lparr>idx := idx p + 1\<rparr>"
    using pick_seen by blast
qed

text \<open>
  The key is not always the link itself: a link with a trailing space has a non-empty trimmed
  link, and its key is the trimmed link.
\<close>

theorem identity_key_counterexample:
  "trim (link (exampleArticle ''Article A'' ''https://xz.aliyun.com/news/1 '')) \<noteq> []
   \<and> identityKey (exampleArticle ''Article A'' ''https://xz.aliyun.com/news/1 '')
       \<noteq> link (exampleArticle ''Article A'' ''https://xz.aliyun.com/news/1 '')"
  by (simp add: identityKey_def exampleArticle_def trim_def ascii_def isJsSpace_def)

text \<open>
  A run over two pages that both list the same entry: it is fetched and saved on the first
  page, skipped on the second, and counted once.
\<close>

theorem dedup_invariant_witness:
  "snd (scrapeArticles exampleHost twoPages repeatedSchedule repeatedListing newCrawler)
     = [Extract 1, NextPage 1, Extract 2, NextPage 2]
   \<and> seenKeys (fst (scrapeArticles exampleHost twoPages repeatedSchedule repeatedListing newCrawler))
     = [ascii ''https://xz.aliyun.com/news/1'']
   \<and> length (articles (fst (scrapeArticles exampleHost twoPages repeatedSchedule repeatedListing
        newCrawler))) = 1
   \<and> distinct (map identityKey (filter hasLink (articles (fst (scrapeArticles exampleHost twoPages
        repeatedSchedule repeatedListing newCrawler)))))
   \<and> step exampleHost twoPages
        (startPool twoPages [exampleArticle ''Article A'' ''https://xz.aliyun.com/news/1''] crawledOnce)
        (Pick 0)
       = (startPool twoPages [exampleArticle ''Article A'' ''https://xz.aliyun.com/news/1''] crawledOnce)
           \<lparr>idx := idx (startPool twoPages
              [exampleArticle ''Article A'' ''https://xz.aliyun.com/news/1''] crawledOnce) + 1\<rparr>"
proof -
  let ?a = "exampleArticle ''Article A'' ''https://xz.aliyun.com/news/1''"
  let ?p = "startPool twoPages [?a] crawledOnce"
  have "distinct (map identityKey (filter hasLink (articles crawledOnce)))"
    using dedup_invariant [of ?a exampleHost twoPages repeatedSchedule repeatedListing
        crawledOnce "[Extract 1, NextPage 1, Extract 2, NextPage 2]" 0 ?p] repeated_run
    by blast
  moreover have "0 < length (workers ?p) \<and> workers ?p ! 0 = Idle \<and> idx ?p < length (items ?p)
        \<and> \<not> aborted ?p \<and> identityKey (items ?p ! idx ?p) \<in> set (seenKeys ?p)"
    by (simp add: startPool_def twoPages_def exampleConfig_def crawledOnce_def crawler.defs
        pool.defs key_example)
  then have "step exampleHost twoPages ?p (Pick 0) = ?p\<lparr>idx := idx ?p + 1\<rparr>"
    using dedup_invariant [of ?a exampleHost twoPages repeatedSchedule repeatedListing
        crawledOnce "[Extract 1, NextPage 1, Extract 2, NextPage 2]" 0 ?p]
    by blast
  ultimately show ?thesis
    unfolding repeated_run by (simp add: crawledOnce_def)
qed

section \<open>Properties of immediate persistence\<close>






















section \<open>Properties of the code extractor\<close>

lemma extractCodeFromCard_no_markup: "extractCodeFromCard [] = []"
  by (simp add: extractCodeFromCard_def)

lemma extractCodeFromCard_empty_code:
  "filter (\<lambda>c. c \<noteq> 8203) (codeContentOf nodes) = [] \<Longrightarrow> extractCodeFromCard nodes = []"
  by (simp add: extractCodeFromCard_def Let_def)

lemma extractCodeFromCard_no_zero_width: "8203 \<notin> set (filter (\<lambda>c. c \<noteq> 8203) s)"
  by simp

lemma codeContentOf_lines:
  "querySelectorAll (hasClass ''cm-line'') nodes \<noteq> [] \<Longrightarrow>
   codeContentOf nodes = joinLines (map lineText (querySelectorAll (hasClass ''cm-line'') nodes))"
  by (simp add: codeContentOf_def Let_def)

lemma walkNodes_br: "walkNodes (Element (ascii ''br'') attrs children) = []"
  by simp

lemma shellLanguageCard_bash:
  "extractCodeFromCard shellLanguageCard
   = [LF] @ replicate 3 BT @ ascii ''bash'' @ [LF] @ ascii ''ls'' @ [LF] @ ascii ''pwd'' @ [LF]
       @ replicate 3 BT @ [LF, LF]"
  by code_simp

lemma emptyCard_nothing: "extractCodeFromCard emptyCard = []"
  by code_simp

text \<open>
  Claim C7. Lines, line breaks, zero-width spaces and the empty result are as the claim says
  (lemmas above), and \<open>shell\<close> read from the language attribute becomes \<open>bash\<close>. A language
  read from the mode attribute is not normalised: the test for \<open>shell\<close> stands inside the
  branch taken only when the mode attribute gave nothing, so a card whose mode is \<open>shell\<close>
  is fenced as \<open>shell\<close>.
\<close>

theorem code_extractor_keeps_shell_mode:
  "extractCodeFromCard shellCard
   = [LF] @ replicate 3 BT @ ascii ''shell'' @ [LF] @ ascii ''ls'' @ [LF] @ replicate 3 BT @ [LF, LF]"
  by code_simp

section \<open>Properties of the table converter\<close>










lemma querySelector_td: "querySelector (hasClass c) (childNodes (td s)) = None"
  by (simp add: td_def querySelector_def querySelectorAll_def elementsIn_def)

lemma escapeCell_letter:
  "c \<in> {97, 98, 99} \<Longrightarrow> escapeCell [c] = [c]"
  by (auto simp: escapeCell_def trimEnd_def isJsSpace_def)

lemma cellMarkdown_td:
  "cellMarkdown textContent (td ''a'') = ascii ''a''"
  "cellMarkdown textContent (td ''b'') = ascii ''b''"
  "cellMarkdown textContent (td ''c'') = ascii ''c''"
  by (simp_all add: cellMarkdown_def querySelector_td Let_def)
     (simp_all add: td_def ascii_def escapeCell_letter)

lemma rows_example:
  "rowsOf [tr [td ''a'', td ''b''], tr [td ''c'']] = [tr [td ''a'', td ''b''], tr [td ''c'']]"
  "rowsOf [tr [], tr [td ''c'']] = [tr [], tr [td ''c'']]"
  by code_simp+

lemma cells_example:
  "cellsOf (tr [td ''a'', td ''b'']) = [td ''a'', td ''b'']"
  "cellsOf (tr [td ''c'']) = [td ''c'']"
  "cellsOf (tr []) = []"
  "\<not> hasTh (tr [td ''a'', td ''b''])" "\<not> hasTh (tr [td ''c''])"
  by code_simp+


text \<open>
  Two inputs outside the amended claim: a first row without cells, followed by a row without
  header cells; and markup with no row whose stripped text is empty.
\<close>

lemma empty_first_row_no_separator:
  "tableLoop textContent 0 False (rowsOf [tr [], tr [td ''c'']]) = [Row [ascii ''c'']]"
  by (simp add: rows_example cells_example cellMarkdown_td Let_def)

lemma no_rows_no_text_empty_output:
  "convertTableToMarkdown textContent (ascii ''<col>'') [Element (ascii ''col'') [] []] = []"
  by code_simp




section \<open>Properties of the download\<close>

lemma downloadOk_deliver: "downloadOk d \<Longrightarrow> downloadOk (deliver d ev)"
proof (cases "stage d")
  case AwaitingResponse
  assume "downloadOk d"
  with AwaitingResponse show ?thesis
    by (cases ev) (simp_all add: downloadOk_def onResponse_def settle_def)
next
  case Opening
  assume "downloadOk d"
  with Opening show ?thesis
    by (cases ev) (simp_all add: downloadOk_def settle_def)
next
  case Streaming
  assume "downloadOk d"
  with Streaming show ?thesis
    by (cases ev) (simp_all add: downloadOk_def settle_def)
next
  case Closed
  assume "downloadOk d"
  with Closed show ?thesis
    by (cases ev) (simp_all add: downloadOk_def)
qed

lemma downloadOk_foldl: "downloadOk d \<Longrightarrow> downloadOk (foldl deliver d evs)"
  by (induction evs arbitrary: d) (simp_all add: downloadOk_deliver)

lemma downloadOk_run: "downloadOk (downloadWithReferer evs)"
  unfolding downloadWithReferer_def
  by (rule downloadOk_foldl) (simp add: downloadOk_def startDownload_def)

lemma consistent_resolved: "consistent st Resolved f \<Longrightarrow> f = Complete"
  by (cases st) simp_all

lemma consistent_complete: "consistent st p Complete \<Longrightarrow> p = Resolved"
  by (induction st p "Complete" rule: consistent.induct) simp_all

lemma consistent_rejected:
  "consistent st (Rejected e) f \<Longrightarrow> e \<noteq> RequestError \<Longrightarrow> f = Absent"
  by (cases st; cases e) simp_all

lemma download_resolved_complete:
  "promise (downloadWithReferer evs) = Resolved \<longleftrightarrow> dest (downloadWithReferer evs) = Complete"
  using downloadOk_run [of evs] consistent_resolved consistent_complete
  unfolding downloadOk_def by metis

lemma download_clean_rejections:
  "promise (downloadWithReferer evs) = Rejected e \<Longrightarrow> e \<noteq> RequestError \<Longrightarrow>
   dest (downloadWithReferer evs) = Absent"
  using downloadOk_run [of evs] consistent_rejected
  unfolding downloadOk_def by metis

text \<open>
  Claim C10. A write-stream error unlinks the file before the promise rejects, a status that
  is neither a followed redirect nor 200 and a sixth redirect reject with no file created,
  and the promise resolves exactly when the file is complete (lemmas above). But the
  handler of the request's own \<open>error\<close> event only rejects: when the request fails or times
  out after the response has started to stream into the file, the promise rejects and the
  partly written file stays.
\<close>

theorem download_leaves_partial_file:
  "promise (downloadWithReferer [Response 200 None, Opened, Chunk, RequestFailed])
     = Rejected RequestError
   \<and> dest (downloadWithReferer [Response 200 None, Opened, Chunk, RequestFailed]) = Partial"
  by (simp add: downloadWithReferer_def startDownload_def onResponse_def settle_def)

section \<open>Properties of the image localizer\<close>

lemma runTasks_existing:
  "\<forall>t \<in> set ts. taskFile t \<in> set images \<Longrightarrow>
   runTasks resolves ts images downloaded = (map (\<lambda>t. t\<lparr>taskOk := True\<rparr>) ts, images, downloaded)"
  by (induction ts) auto

lemma localizeFile_no_reference:
  "scanAll matchImageAt (removeMatches matchSvgAt fileContent) = [] \<Longrightarrow>
   scanAll matchDataAt (removeMatches matchSvgAt fileContent) = [] \<Longrightarrow>
   localizeFile h reachable fileContent images downloaded = (None, images, downloaded)"
  by (simp add: localizeFile_def)

lemma localizeFile_targets_exist:
  assumes "\<forall>m \<in> set (scanAll matchImageAt (removeMatches matchSvgAt fileContent)).
             taskFile (remoteTask h m) \<in> set images"
    and "\<forall>m \<in> set (scanAll matchDataAt (removeMatches matchSvgAt fileContent)).
             taskFile (embeddedTask h m) \<in> set images"
  shows "snd (localizeFile h reachable fileContent images downloaded) = (images, downloaded)"
proof -
  let ?raw = "removeMatches matchSvgAt fileContent"
  let ?tasks = "map (remoteTask h) (scanAll matchImageAt ?raw)"
  let ?dataTasks = "map (embeddedTask h) (scanAll matchDataAt ?raw)"
  have a: "runTasks reachable ?tasks images downloaded
      = (map (\<lambda>t. t\<lparr>taskOk := True\<rparr>) ?tasks, images, downloaded)"
    using assms(1) by (intro runTasks_existing) auto
  have b: "runTasks (decodes h) ?dataTasks images downloaded
      = (map (\<lambda>t. t\<lparr>taskOk := True\<rparr>) ?dataTasks, images, downloaded)"
    using assms(2) by (intro runTasks_existing) auto
  show ?thesis
    by (simp add: localizeFile_def Let_def a b)
qed

lemma plain_reference_idempotent:
  "localizeImagesInPapers shortDigest (\<lambda>u. True) plainReference
     = (\<lparr> entries = [(ascii ''a.md'', ascii ''x ![pic](images/0f.png) y'')],
          imageFiles = [ascii ''0f.png''] \<rparr>, 1)
   \<and> localizeImagesInPapers shortDigest (\<lambda>u. True)
        \<lparr> entries = [(ascii ''a.md'', ascii ''x ![pic](images/0f.png) y'')],
          imageFiles = [ascii ''0f.png''] \<rparr>
     = (\<lparr> entries = [(ascii ''a.md'', ascii ''x ![pic](images/0f.png) y'')],
          imageFiles = [ascii ''0f.png''] \<rparr>, 0)"
  by code_simp

text \<open>
  Claim C8. A reference whose target file exists is resolved without a download or a write
  of the image, so a pass over files whose targets all exist downloads nothing (lemmas
  above), and a file without references is not written. But the reference is rewritten by
  replacing the first occurrence of the locator in the reference, and when the alternative
  text contains the locator, that occurrence is in the alternative text: the first pass
  downloads the image and leaves the locator in place, and the second pass, which downloads
  nothing, rewrites the file again.
\<close>

theorem second_pass_rewrites_file:
  "localizeImagesInPapers shortDigest (\<lambda>u. True) altIsUrl
     = (\<lparr> entries = [(ascii ''a.md'', ascii ''![images/0f.png](http://h/b.png)'')],
          imageFiles = [ascii ''0f.png''] \<rparr>, 1)
   \<and> localizeImagesInPapers shortDigest (\<lambda>u. True)
        \<lparr> entries = [(ascii ''a.md'', ascii ''![images/0f.png](http://h/b.png)'')],
          imageFiles = [ascii ''0f.png''] \<rparr>
     = (\<lparr> entries = [(ascii ''a.md'', ascii ''![images/0f.png](images/0f.png)'')],
          imageFiles = [ascii ''0f.png''] \<rparr>, 0)"
  by code_simp

end
